theory Spec2Isabelle
  imports Complex_Main "HOL-Library.AList" "HOL-Library.Multiset"
begin

chapter \<open>The model\<close>

section \<open>Values of the host language\<close>

text \<open>
  A \<open>Date\<close> is a valid instant: its time value, the milliseconds since the epoch that
  \<open>getTime()\<close> returns.  The special Invalid Date (time value NaN) is not a value of this
  type; where the source can produce one, the model says so at that place.
  Strings are sequences of ASCII characters.
\<close>

type_synonym Date = int

datatype js_error = Error string | TypeError | RangeError

text \<open>\<open>Math.round\<close>: the nearest integer, a tie going up.\<close>

definition Math_round :: "real \<Rightarrow> int" where
  "Math_round x = \<lfloor>x + 1 / 2\<rfloor>"

text \<open>\<open>String(n)\<close> for an integer \<open>n\<close>: its decimal numeral.\<close>

definition digitChar :: "int \<Rightarrow> char" where
  "digitChar d = char_of (48 + d)"

function digitsOf :: "int \<Rightarrow> string" where
  "digitsOf n = (if n < 10 then [digitChar n] else digitsOf (n div 10) @ [digitChar (n mod 10)])"
  by pat_completeness auto
termination
  by (relation "measure nat") auto

declare digitsOf.simps [simp del]

definition String_of_int :: "int \<Rightarrow> string" where
  "String_of_int i = (if i < 0 then CHR ''-'' # digitsOf (- i) else digitsOf i)"

definition isDigit :: "char \<Rightarrow> bool" where
  "isDigit c = (48 \<le> (of_char c :: int) \<and> (of_char c :: int) \<le> 57)"

definition digitValue :: "char \<Rightarrow> int" where
  "digitValue c = of_char c - 48"

definition digitsValue :: "string \<Rightarrow> int" where
  "digitsValue ds = foldl (\<lambda>acc c. 10 * acc + digitValue c) 0 ds"

definition isWhiteSpace :: "char \<Rightarrow> bool" where
  "isWhiteSpace c = ((of_char c :: int) \<in> {9, 10, 11, 12, 13, 32})"

text \<open>
  \<open>parseInt(s, 10)\<close>: leading white space is skipped, one sign is read, then the longest
  run of decimal digits; anything after it is ignored.  With no digit the result is NaN,
  here \<open>None\<close>.
\<close>

definition parseInt :: "string \<Rightarrow> int option" where
  "parseInt s =
     (let t = dropWhile isWhiteSpace s;
          neg = (t \<noteq> [] \<and> hd t = CHR ''-'');
          u = (if t \<noteq> [] \<and> (hd t = CHR ''-'' \<or> hd t = CHR ''+'') then tl t else t);
          ds = takeWhile isDigit u
      in if ds = [] then None
         else Some (if neg then - digitsValue ds else digitsValue ds))"

text \<open>\<open>toLowerCase\<close> on ASCII letters.\<close>

definition lowerChar :: "char \<Rightarrow> char" where
  "lowerChar c =
     (if 65 \<le> (of_char c :: int) \<and> (of_char c :: int) \<le> 90 then char_of ((of_char c :: int) + 32) else c)"

definition toLowerCase :: "string \<Rightarrow> string" where
  "toLowerCase s = map lowerChar s"

fun startsWith :: "string \<Rightarrow> string \<Rightarrow> bool" where
  "startsWith s [] = True"
| "startsWith [] (p # ps) = False"
| "startsWith (c # cs) (p # ps) = (c = p \<and> startsWith cs ps)"

fun includesStr :: "string \<Rightarrow> string \<Rightarrow> bool" where
  "includesStr [] p = (p = [])"
| "includesStr (c # cs) p = (startsWith (c # cs) p \<or> includesStr cs p)"

text \<open>
  \<open>Array.prototype.sort\<close> with a comparator is stable.  With a comparator that is a
  consistent ordering its result is the one of every stable comparison sort, here
  insertion from the right: an element goes behind every element it does not precede.
\<close>

fun insertBy :: "('a \<Rightarrow> 'a \<Rightarrow> int) \<Rightarrow> 'a \<Rightarrow> 'a list \<Rightarrow> 'a list" where
  "insertBy cmp x [] = [x]"
| "insertBy cmp x (y # ys) = (if cmp x y \<le> 0 then x # y # ys else y # insertBy cmp x ys)"

definition sortBy :: "('a \<Rightarrow> 'a \<Rightarrow> int) \<Rightarrow> 'a list \<Rightarrow> 'a list" where
  "sortBy cmp xs = foldr (insertBy cmp) xs []"

section \<open>The data model (types.ts)\<close>

datatype PriorityLevel = High | Medium | Low

datatype TaskStatus = Pending | InProgress | Completed | Deferred | Archived

datatype HistoryAction = ActCreated | ActUpdated | ActCompleted | ActDeferred | ActRescheduled

text \<open>The enumerations are string literal types; these are the strings.\<close>

fun priorityName :: "PriorityLevel \<Rightarrow> string" where
  "priorityName High = ''high''"
| "priorityName Medium = ''medium''"
| "priorityName Low = ''low''"

fun statusName :: "TaskStatus \<Rightarrow> string" where
  "statusName Pending = ''pending''"
| "statusName InProgress = ''in_progress''"
| "statusName Completed = ''completed''"
| "statusName Deferred = ''deferred''"
| "statusName Archived = ''archived''"

text \<open>
  What a history entry keeps under \<open>previousValue\<close> and \<open>newValue\<close> (type \<open>unknown\<close>):
  a string, a number, a Date object or an array of strings; \<open>None\<close> is \<open>undefined\<close>.
\<close>

datatype jsvalue = JString string | JNumber int | JDate Date | JStrings "string list"

text \<open>
  \<open>TaskInput\<close>: what \<open>create\<close> takes.  Several records share field names with a task;
  where a name alone is not clear it is written with its record, as \<open>TaskInput.title\<close>.
\<close>

record TaskInput =
  rawInput :: string
  title :: "string option"
  description :: "string option"
  parentId :: "string option"
  deadline :: "Date option"
  scheduledDate :: "Date option"
  estimatedMinutes :: "int option"
  priority :: "PriorityLevel option"

text \<open>
  The records of the atomization engine: a micro-task as the engine returns it, a
  dependency edge, the engine's result, and the structured answer of the text-generation
  collaborator (\<open>AtomizationLLMResponse\<close> and its micro-tasks).
\<close>

record MicroTaskSuggestion =
  title :: string
  description :: "string option"
  estimatedMinutes :: int
  dependsOn :: "string list"
  isParallelizable :: bool

datatype DependencyType = Blocks | Informs

record Dependency =
  fromIndex :: int
  toIndex :: nat
  dependencyType :: DependencyType

record AtomizationResult =
  microTasks :: "MicroTaskSuggestion list"
  dependencies :: "Dependency list"
  parallelGroups :: "nat list list"
  mvpSuggestion :: "string option"

record LLMMicroTask =
  title :: string
  description :: "string option"
  estimatedMinutes :: "int option"
  dependsOn :: "int list option"

record AtomizationLLMResponse =
  microTasks :: "LLMMicroTask list"
  mvpSuggestion :: "string option"

text \<open>
  \<open>Task\<close> and \<open>SerializedTask\<close> have the same fields and differ in the type of the
  dates (\<open>Date\<close> and \<open>string\<close>); so do their history entries.
\<close>

record 'd HistoryEntryOf =
  timestamp :: 'd
  action :: HistoryAction
  details :: string
  previousValue :: "jsvalue option"
  newValue :: "jsvalue option"

record TaskContext =
  originalGoal :: "string option"
  parentContext :: "string option"
  "notes" :: "string list"
  relatedTaskIds :: "string list"

record 'd TaskOf =
  id_task :: string
  createdAt :: 'd
  updatedAt :: 'd
  title :: string
  description :: "string option"
  rawInput :: string
  parentId :: "string option"
  childIds :: "string list"
  deadline :: "'d option"
  scheduledDate :: "'d option"
  estimatedMinutes :: "int option"
  priority :: PriorityLevel
  priorityReason :: string
  status :: TaskStatus
  "context" :: TaskContext
  history :: "'d HistoryEntryOf list"

type_synonym TaskHistoryEntry = "Date HistoryEntryOf"
type_synonym SerializedTaskHistoryEntry = "string HistoryEntryOf"
type_synonym Task = "Date TaskOf"
type_synonym SerializedTask = "string TaskOf"

section \<open>The priority engine\<close>

record PriorityFactor =
  name :: string
  weight :: int
  "value" :: int
  explanation :: string

record PriorityResult =
  level :: PriorityLevel
  reason :: string
  score :: int
  factors :: "PriorityFactor list"

definition HOURS_IN_DAY :: real where
  "HOURS_IN_DAY = 24"

definition HOURS_IN_WEEK :: real where
  "HOURS_IN_WEEK = 7 * HOURS_IN_DAY"

text \<open>
  The factors read the clock themselves (\<open>new Date()\<close>); the reading is the first
  argument.  Quotients of time values are real numbers here.
\<close>

definition calculateDeadlineFactor :: "Date \<Rightarrow> Task \<Rightarrow> PriorityFactor" where
  "calculateDeadlineFactor now task =
     (case deadline task of
        None \<Rightarrow> \<lparr>name = ''deadline'', weight = 50, value = 30, explanation = ''No deadline set''\<rparr>
      | Some dl \<Rightarrow>
          (let hoursUntilDeadline = real_of_int (dl - now) / (1000 * 60 * 60) in
           if hoursUntilDeadline \<le> 0 then
             \<lparr>name = ''deadline'', weight = 50, value = 100, explanation = ''Overdue''\<rparr>
           else if hoursUntilDeadline \<le> HOURS_IN_DAY then
             \<lparr>name = ''deadline'', weight = 50, value = 100, explanation = ''Due within 24 hours''\<rparr>
           else if hoursUntilDeadline \<le> HOURS_IN_WEEK then
             (let daysUntil = hoursUntilDeadline / HOURS_IN_DAY in
              \<lparr>name = ''deadline'', weight = 50,
               value = Math_round (90 - (daysUntil - 1) * 3),
               explanation = ''Due in '' @ String_of_int \<lceil>daysUntil\<rceil> @ '' days''\<rparr>)
           else
             (let daysUntil = hoursUntilDeadline / HOURS_IN_DAY in
              \<lparr>name = ''deadline'', weight = 50,
               value = max 20 (Math_round (60 - daysUntil)),
               explanation = ''Due in '' @ String_of_int \<lceil>daysUntil\<rceil> @ '' days''\<rparr>)))"

fun priorityValues :: "PriorityLevel \<Rightarrow> int" where
  "priorityValues High = 100"
| "priorityValues Medium = 50"
| "priorityValues Low = 20"

definition calculateExistingPriorityFactor :: "Task \<Rightarrow> PriorityFactor" where
  "calculateExistingPriorityFactor task =
     \<lparr>name = ''existing_priority'', weight = 30, value = priorityValues (priority task),
      explanation = ''Current priority: '' @ priorityName (priority task)\<rparr>"

definition calculateAgeFactor :: "Date \<Rightarrow> Task \<Rightarrow> PriorityFactor" where
  "calculateAgeFactor now task =
     (let ageInDays = real_of_int (now - createdAt task) / (1000 * 60 * 60 * 24) in
      \<lparr>name = ''age'', weight = 10, value = min 100 (Math_round (30 + ageInDays * 10)),
       explanation = ''Created '' @ String_of_int \<lfloor>ageInDays\<rfloor> @ '' days ago''\<rparr>)"

text \<open>\<open>if (task.parentId)\<close>: an absent and an empty parent id are both falsy.\<close>

definition calculateHierarchyFactor :: "Task \<Rightarrow> PriorityFactor" where
  "calculateHierarchyFactor task =
     (if length (childIds task) > 0 then
        \<lparr>name = ''hierarchy'', weight = 10, value = 70, explanation = ''Has subtasks''\<rparr>
      else if parentId task \<noteq> None \<and> parentId task \<noteq> Some [] then
        \<lparr>name = ''hierarchy'', weight = 10, value = 50, explanation = ''Is a subtask''\<rparr>
      else
        \<lparr>name = ''hierarchy'', weight = 10, value = 40, explanation = ''Standalone task''\<rparr>)"

definition scoreToLevel :: "int \<Rightarrow> PriorityLevel" where
  "scoreToLevel s = (if s \<ge> 70 then High else if s \<ge> 40 then Medium else Low)"

text \<open>
  The first match of \<open>/Due in (\d+) days/\<close> anywhere in a string; the result is the
  captured run of digits.
\<close>

fun matchDueIn :: "string \<Rightarrow> string option" where
  "matchDueIn [] = None"
| "matchDueIn (c # cs) =
     (if startsWith (c # cs) ''Due in ''
         \<and> takeWhile isDigit (drop 7 (c # cs)) \<noteq> []
         \<and> startsWith (dropWhile isDigit (drop 7 (c # cs))) '' days''
      then Some (takeWhile isDigit (drop 7 (c # cs)))
      else matchDueIn cs)"

fun capitalized :: "PriorityLevel \<Rightarrow> string" where
  "capitalized High = ''High''"
| "capitalized Medium = ''Medium''"
| "capitalized Low = ''Low''"

fun defaultReason :: "PriorityLevel \<Rightarrow> string" where
  "defaultReason High = ''High: Urgent task''"
| "defaultReason Medium = ''Medium: Standard priority''"
| "defaultReason Low = ''Low: No immediate deadline''"

definition generateReason :: "PriorityLevel \<Rightarrow> PriorityFactor list \<Rightarrow> string" where
  "generateReason lvl fs =
     (case find (\<lambda>f. name f = ''deadline'') fs of
        None \<Rightarrow> defaultReason lvl
      | Some deadlineFactor \<Rightarrow>
          if explanation deadlineFactor = ''Overdue'' then ''High: Overdue''
          else if explanation deadlineFactor = ''Due within 24 hours'' then ''High: Due within 24 hours''
          else if startsWith (explanation deadlineFactor) ''Due in'' then
            (case matchDueIn (explanation deadlineFactor) of
               None \<Rightarrow> defaultReason lvl
             | Some ds \<Rightarrow>
                 if digitsValue ds \<le> 7 then capitalized lvl @ '': '' @ explanation deadlineFactor
                 else defaultReason lvl)
          else defaultReason lvl)"

text \<open>
  \<open>calculatePriority\<close>: the weighted mean of the four factors.  The deadline factor and
  the age factor each read the clock; \<open>nowD\<close> and \<open>nowA\<close> are the two readings.
\<close>

definition calculatePriority :: "Date \<Rightarrow> Date \<Rightarrow> Task \<Rightarrow> PriorityResult" where
  "calculatePriority nowD nowA task =
     (let deadlineFactor = calculateDeadlineFactor nowD task;
          existingPriorityFactor = calculateExistingPriorityFactor task;
          ageFactor = calculateAgeFactor nowA task;
          hierarchyFactor = calculateHierarchyFactor task;
          fs = [deadlineFactor, existingPriorityFactor, ageFactor, hierarchyFactor];
          totalScore = value deadlineFactor * weight deadlineFactor
                     + value existingPriorityFactor * weight existingPriorityFactor
                     + value ageFactor * weight ageFactor
                     + value hierarchyFactor * weight hierarchyFactor;
          totalWeight = weight deadlineFactor + weight existingPriorityFactor
                      + weight ageFactor + weight hierarchyFactor;
          sc = Math_round (real_of_int totalScore / real_of_int totalWeight);
          lvl = scoreToLevel sc
      in \<lparr>level = lvl, reason = generateReason lvl fs, score = sc, factors = fs\<rparr>)"

section \<open>The host platform\<close>

text \<open>
  What the code asks of its host: \<open>Date.prototype.toISOString\<close>, the Date constructor on
  a string (\<open>None\<close> when the string denotes no instant: an Invalid Date), and the local
  time zone, as the offset from UTC in milliseconds in force at a UTC instant
  (\<open>utcOffset\<close>) and at a local time value (\<open>localOffset\<close>).
\<close>

record Platform =
  toISOString :: "Date \<Rightarrow> string"
  parseDate :: "string \<Rightarrow> Date option"
  utcOffset :: "Date \<Rightarrow> int"
  localOffset :: "int \<Rightarrow> int"

definition msPerDay :: int where
  "msPerDay = 86400000"

definition LocalTime :: "Platform \<Rightarrow> Date \<Rightarrow> int" where
  "LocalTime pf t = t + utcOffset pf t"

definition UTC :: "Platform \<Rightarrow> int \<Rightarrow> Date" where
  "UTC pf l = l - localOffset pf l"

text \<open>
  \<open>d.setDate(d.getDate() + k)\<close>: the local calendar day moves by \<open>k\<close> days, the local
  time of day stays.  \<open>d.setHours(h, 0, 0, 0)\<close>: the local time of day becomes \<open>h\<close>:00.
\<close>

definition setDate_getDate_plus :: "Platform \<Rightarrow> Date \<Rightarrow> int \<Rightarrow> Date" where
  "setDate_getDate_plus pf t k = UTC pf (LocalTime pf t + k * msPerDay)"

definition setHours :: "Platform \<Rightarrow> Date \<Rightarrow> int \<Rightarrow> Date" where
  "setHours pf t h = UTC pf ((LocalTime pf t div msPerDay) * msPerDay + h * 3600000)"

subsection \<open>A reference platform\<close>

text \<open>
  The proleptic Gregorian calendar, by days since the epoch, and the ISO 8601 form
  \<open>YYYY-MM-DDTHH:mm:ss.sssZ\<close> that \<open>toISOString\<close> writes (with a sign and six digits
  for a year outside 0..9999).  The parser reads that form and the date-only form
  \<open>YYYY-MM-DD\<close>, which denotes midnight UTC; these are the forms the code hands to the
  Date constructor, which on a host reads further forms as well.
\<close>

definition civilFromDays :: "int \<Rightarrow> int \<times> int \<times> int" where
  "civilFromDays z0 =
     (let z = z0 + 719468;
          era = z div 146097;
          doe = z mod 146097;
          yoe = (doe - doe div 1460 + doe div 36524 - doe div 146096) div 365;
          doy = doe - (365 * yoe + yoe div 4 - yoe div 100);
          mp = (5 * doy + 2) div 153;
          d = doy - (153 * mp + 2) div 5 + 1;
          m = (if mp < 10 then mp + 3 else mp - 9);
          y = yoe + era * 400
      in (if m \<le> 2 then y + 1 else y, m, d))"

definition daysFromCivil :: "int \<Rightarrow> int \<Rightarrow> int \<Rightarrow> int" where
  "daysFromCivil y0 m d =
     (let y = (if m \<le> 2 then y0 - 1 else y0);
          era = y div 400;
          yoe = y mod 400;
          doy = (153 * (if m > 2 then m - 3 else m + 9) + 2) div 5 + d - 1;
          doe = yoe * 365 + yoe div 4 - yoe div 100 + doy
      in era * 146097 + doe - 719468)"

definition pad :: "nat \<Rightarrow> int \<Rightarrow> string" where
  "pad w n = replicate (w - length (digitsOf n)) CHR ''0'' @ digitsOf n"

definition yearString :: "int \<Rightarrow> string" where
  "yearString y =
     (if 0 \<le> y \<and> y \<le> 9999 then pad 4 y
      else (if y < 0 then CHR ''-'' else CHR ''+'') # pad 6 \<bar>y\<bar>)"

definition isoString :: "Date \<Rightarrow> string" where
  "isoString t =
     (let (y, m, d) = civilFromDays (t div msPerDay);
          ms = t mod msPerDay
      in yearString y @ ''-'' @ pad 2 m @ ''-'' @ pad 2 d @ ''T''
         @ pad 2 (ms div 3600000) @ '':'' @ pad 2 (ms div 60000 mod 60) @ '':''
         @ pad 2 (ms div 1000 mod 60) @ ''.'' @ pad 3 (ms mod 1000) @ ''Z'')"

definition fieldOf :: "string \<Rightarrow> int option" where
  "fieldOf ds = (if ds \<noteq> [] \<and> list_all isDigit ds then Some (digitsValue ds) else None)"

definition isoDate :: "string \<Rightarrow> int option" where
  "isoDate s =
     (let (sgn, r) = (if s \<noteq> [] \<and> hd s = CHR ''-'' then (- 1 :: int, tl s)
                      else if s \<noteq> [] \<and> hd s = CHR ''+'' then (1, tl s) else (0, s));
          w = (if sgn = 0 then 4 else 6)
      in if length r = w + 6 \<and> r ! w = CHR ''-'' \<and> r ! (w + 3) = CHR ''-'' then
           (case (fieldOf (take w r), fieldOf (take 2 (drop (w + 1) r)), fieldOf (drop (w + 4) r)) of
              (Some y, Some m, Some d) \<Rightarrow>
                if 1 \<le> m \<and> m \<le> 12 \<and> 1 \<le> d \<and> d \<le> 31
                then Some (daysFromCivil (if sgn < 0 then - y else y) m d) else None
            | _ \<Rightarrow> None)
         else None)"

definition isoTime :: "string \<Rightarrow> int option" where
  "isoTime s =
     (if length s = 13 \<and> s ! 2 = CHR '':'' \<and> s ! 5 = CHR '':'' \<and> s ! 8 = CHR ''.'' \<and> s ! 12 = CHR ''Z'' then
        (case (fieldOf (take 2 s), fieldOf (take 2 (drop 3 s)), fieldOf (take 2 (drop 6 s)),
               fieldOf (take 3 (drop 9 s))) of
           (Some h, Some mi, Some sec, Some ms) \<Rightarrow>
             if h \<le> 23 \<and> mi \<le> 59 \<and> sec \<le> 59
             then Some (h * 3600000 + mi * 60000 + sec * 1000 + ms) else None
         | _ \<Rightarrow> None)
      else None)"

definition isoParse :: "string \<Rightarrow> Date option" where
  "isoParse s =
     (let dpart = takeWhile (\<lambda>c. c \<noteq> CHR ''T'') s;
          rest = dropWhile (\<lambda>c. c \<noteq> CHR ''T'') s
      in case isoDate dpart of
           None \<Rightarrow> None
         | Some day \<Rightarrow>
             if rest = [] then Some (day * msPerDay)
             else (case isoTime (tl rest) of
                     None \<Rightarrow> None
                   | Some ms \<Rightarrow> Some (day * msPerDay + ms)))"

text \<open>The reference platform in the zone UTC.\<close>

definition utcPlatform :: Platform where
  "utcPlatform =
     \<lparr>toISOString = isoString, parseDate = isoParse,
      utcOffset = (\<lambda>t. 0), localOffset = (\<lambda>l. 0)\<rparr>"

text \<open>
  The reference platform in the zone America/New_York with its rules for 2024:
  daylight time (UTC-4) from 2024-03-10 07:00 UTC to 2024-11-03 06:00 UTC, that is from
  03:00 to 02:00 on the local clock, and standard time (UTC-5) outside.
\<close>

definition newYorkPlatform :: Platform where
  "newYorkPlatform =
     \<lparr>toISOString = isoString, parseDate = isoParse,
      utcOffset = (\<lambda>t. if 1710054000000 \<le> t \<and> t < 1730613600000 then - 14400000 else - 18000000),
      localOffset = (\<lambda>l. if 1710039600000 \<le> l \<and> l < 1730599200000 then - 14400000 else - 18000000)\<rparr>"

section \<open>Serialization (types.ts)\<close>

definition serializeEntry :: "Platform \<Rightarrow> TaskHistoryEntry \<Rightarrow> SerializedTaskHistoryEntry" where
  "serializeEntry pf h =
     \<lparr>timestamp = toISOString pf (timestamp h), action = action h, details = details h,
      previousValue = previousValue h, newValue = newValue h\<rparr>"

definition serializeTask :: "Platform \<Rightarrow> Task \<Rightarrow> SerializedTask" where
  "serializeTask pf task =
     \<lparr>id_task = id_task task,
      createdAt = toISOString pf (createdAt task),
      updatedAt = toISOString pf (updatedAt task),
      title = TaskOf.title task,
      description = TaskOf.description task,
      rawInput = TaskOf.rawInput task,
      parentId = TaskOf.parentId task,
      childIds = childIds task,
      deadline = map_option (toISOString pf) (TaskOf.deadline task),
      scheduledDate = map_option (toISOString pf) (TaskOf.scheduledDate task),
      estimatedMinutes = TaskOf.estimatedMinutes task,
      priority = TaskOf.priority task,
      priorityReason = priorityReason task,
      status = status task,
      context = context task,
      history = map (serializeEntry pf) (history task)\<rparr>"

text \<open>
  \<open>deserializeTask\<close> builds every date with \<open>new Date(string)\<close>.  A string that denotes
  no instant gives an Invalid Date there, which no \<open>Task\<close> of this model holds: the model
  has \<open>None\<close> for the whole result then.  \<open>data.deadline ? \<dots> : undefined\<close>: an absent
  and an empty string are both falsy.
\<close>

definition deserializeEntry :: "Platform \<Rightarrow> SerializedTaskHistoryEntry \<Rightarrow> TaskHistoryEntry option" where
  "deserializeEntry pf h =
     (case parseDate pf (timestamp h) of
        None \<Rightarrow> None
      | Some ts \<Rightarrow>
          Some \<lparr>timestamp = ts, action = action h, details = details h,
                previousValue = previousValue h, newValue = newValue h\<rparr>)"

definition optionalDate :: "Platform \<Rightarrow> string option \<Rightarrow> Date option option" where
  "optionalDate pf v =
     (case v of
        None \<Rightarrow> Some None
      | Some s \<Rightarrow> if s = [] then Some None else map_option Some (parseDate pf s))"

definition deserializeTask :: "Platform \<Rightarrow> SerializedTask \<Rightarrow> Task option" where
  "deserializeTask pf data =
     (case (parseDate pf (createdAt data), parseDate pf (updatedAt data),
            optionalDate pf (TaskOf.deadline data), optionalDate pf (TaskOf.scheduledDate data),
            those (map (deserializeEntry pf) (history data))) of
        (Some c, Some u, Some dl, Some sd, Some hs) \<Rightarrow>
          Some \<lparr>id_task = id_task data,
                createdAt = c,
                updatedAt = u,
                title = TaskOf.title data,
                description = TaskOf.description data,
                rawInput = TaskOf.rawInput data,
                parentId = TaskOf.parentId data,
                childIds = childIds data,
                deadline = dl,
                scheduledDate = sd,
                estimatedMinutes = TaskOf.estimatedMinutes data,
                priority = TaskOf.priority data,
                priorityReason = priorityReason data,
                status = status data,
                context = context data,
                history = hs\<rparr>
      | _ \<Rightarrow> None)"

section \<open>The task store (task-store.ts)\<close>

text \<open>
  The store keeps a \<open>Map\<close> from ids to tasks, here an association list in insertion
  order: \<open>set\<close> on a key the map has keeps the key's place, \<open>set\<close> on a new key appends.
  The storage adapter is absent (\<open>None\<close>) or the in-memory adapter
  (memory-storage-adapter.ts), whose state is the list it saved last.
\<close>

record TaskStore =
  tasks :: "(string \<times> Task) list"
  storage :: "SerializedTask list option"

definition persist :: "Platform \<Rightarrow> TaskStore \<Rightarrow> TaskStore" where
  "persist pf s =
     (case storage s of
        None \<Rightarrow> s
      | Some old \<Rightarrow> s\<lparr>storage := Some (map (\<lambda>(k, t). serializeTask pf t) (tasks s))\<rparr>)"

definition get :: "TaskStore \<Rightarrow> string \<Rightarrow> Task option" where
  "get s i = map_of (tasks s) i"

definition getAll :: "TaskStore \<Rightarrow> Task list" where
  "getAll s = map snd (tasks s)"

text \<open>
  \<open>create\<close>.  The clock reading \<open>now\<close> and the identifier \<open>newId\<close> that
  \<open>crypto.randomUUID()\<close> returns are arguments.  Every operation returns its outcome
  (\<open>Inl\<close>: the error thrown) and the store it leaves.
\<close>

definition create ::
  "Platform \<Rightarrow> Date \<Rightarrow> string \<Rightarrow> TaskStore \<Rightarrow> TaskInput \<Rightarrow> (js_error + Task) \<times> TaskStore" where
  "create pf now newId s input =
     (let task =
            \<lparr>id_task = newId,
             createdAt = now,
             updatedAt = now,
             title = (case TaskInput.title input of
                        None \<Rightarrow> take 100 (TaskInput.rawInput input)
                      | Some t \<Rightarrow> if t = [] then take 100 (TaskInput.rawInput input) else t),
             description = TaskInput.description input,
             rawInput = TaskInput.rawInput input,
             parentId = TaskInput.parentId input,
             childIds = [],
             deadline = TaskInput.deadline input,
             scheduledDate = TaskInput.scheduledDate input,
             estimatedMinutes = TaskInput.estimatedMinutes input,
             priority = (case TaskInput.priority input of None \<Rightarrow> Medium | Some p \<Rightarrow> p),
             priorityReason = (if TaskInput.priority input \<noteq> None then ''User specified''
                               else ''Default priority''),
             status = Pending,
             context = \<lparr>originalGoal = None, parentContext = None, notes = [], relatedTaskIds = []\<rparr>,
             history = [\<lparr>timestamp = now, action = ActCreated, details = ''Task created'',
                         previousValue = None, newValue = None\<rparr>]\<rparr>;
          parent = (case TaskInput.parentId input of
                      None \<Rightarrow> None
                    | Some p \<Rightarrow> if p = [] then None else map_of (tasks s) p)
      in case parent of
           None \<Rightarrow> (Inr task, persist pf (s\<lparr>tasks := AList.update newId task (tasks s)\<rparr>))
         | Some par \<Rightarrow>
             (let updatedParent =
                    par\<lparr>childIds := childIds par @ [newId],
                        updatedAt := now,
                        history := history par @
                          [\<lparr>timestamp = now, action = ActUpdated,
                            details = ''Added child task: '' @ newId,
                            previousValue = Some (JStrings (childIds par)),
                            newValue = Some (JStrings (childIds par @ [newId]))\<rparr>]\<rparr>;
                  task' = task\<lparr>context := (context task)
                                \<lparr>parentContext := Some (TaskOf.title par),
                                 originalGoal := Some (TaskOf.rawInput par)\<rparr>\<rparr>
              in (Inr task',
                  persist pf (s\<lparr>tasks := AList.update newId task'
                                          (AList.update (id_task par) updatedParent (tasks s))\<rparr>))))"

text \<open>
  \<open>TaskUpdate\<close>: the entries of the patch object, in the order \<open>Object.entries\<close> lists
  them (the keys of an object are distinct).  A key of an optional field may carry
  \<open>undefined\<close> (\<open>None\<close>).  \<open>!==\<close> compares two Date objects by identity, so a Date in a
  patch comes with the answer whether it is the very object the task holds under that key.
\<close>

datatype PatchDate = PatchDate Date bool

fun patchInstant :: "PatchDate \<Rightarrow> Date" where
  "patchInstant (PatchDate d same) = d"

fun patchSameObject :: "PatchDate \<Rightarrow> bool" where
  "patchSameObject (PatchDate d same) = same"

datatype UpdateEntry =
    UTitle string
  | UDescription "string option"
  | UDeadline "PatchDate option"
  | UPriority PriorityLevel
  | UPriorityReason string
  | UScheduledDate "PatchDate option"
  | UEstimatedMinutes "int option"
  | UStatus TaskStatus

type_synonym TaskUpdate = "UpdateEntry list"

fun entryKey :: "UpdateEntry \<Rightarrow> string" where
  "entryKey (UTitle v) = ''title''"
| "entryKey (UDescription v) = ''description''"
| "entryKey (UDeadline v) = ''deadline''"
| "entryKey (UPriority v) = ''priority''"
| "entryKey (UPriorityReason v) = ''priorityReason''"
| "entryKey (UScheduledDate v) = ''scheduledDate''"
| "entryKey (UEstimatedMinutes v) = ''estimatedMinutes''"
| "entryKey (UStatus v) = ''status''"

text \<open>\<open>value\<close>, and \<open>task[key]\<close>, as a history entry records them.\<close>

fun entryValue :: "UpdateEntry \<Rightarrow> jsvalue option" where
  "entryValue (UTitle v) = Some (JString v)"
| "entryValue (UDescription v) = map_option JString v"
| "entryValue (UDeadline v) = map_option (\<lambda>d. JDate (patchInstant d)) v"
| "entryValue (UPriority v) = Some (JString (priorityName v))"
| "entryValue (UPriorityReason v) = Some (JString v)"
| "entryValue (UScheduledDate v) = map_option (\<lambda>d. JDate (patchInstant d)) v"
| "entryValue (UEstimatedMinutes v) = map_option JNumber v"
| "entryValue (UStatus v) = Some (JString (statusName v))"

fun taskField :: "Task \<Rightarrow> UpdateEntry \<Rightarrow> jsvalue option" where
  "taskField task (UTitle v) = Some (JString (TaskOf.title task))"
| "taskField task (UDescription v) = map_option JString (TaskOf.description task)"
| "taskField task (UDeadline v) = map_option JDate (TaskOf.deadline task)"
| "taskField task (UPriority v) = Some (JString (priorityName (TaskOf.priority task)))"
| "taskField task (UPriorityReason v) = Some (JString (priorityReason task))"
| "taskField task (UScheduledDate v) = map_option JDate (TaskOf.scheduledDate task)"
| "taskField task (UEstimatedMinutes v) = map_option JNumber (TaskOf.estimatedMinutes task)"
| "taskField task (UStatus v) = Some (JString (statusName (status task)))"

text \<open>\<open>value !== undefined && task[key] !== value\<close>.\<close>

fun changed :: "Task \<Rightarrow> UpdateEntry \<Rightarrow> bool" where
  "changed task (UDeadline v) =
     (case v of None \<Rightarrow> False
      | Some d \<Rightarrow> TaskOf.deadline task = None \<or> \<not> patchSameObject d)"
| "changed task (UScheduledDate v) =
     (case v of None \<Rightarrow> False
      | Some d \<Rightarrow> TaskOf.scheduledDate task = None \<or> \<not> patchSameObject d)"
| "changed task e = (entryValue e \<noteq> None \<and> taskField task e \<noteq> entryValue e)"

definition historyEntriesFor :: "Date \<Rightarrow> Task \<Rightarrow> TaskUpdate \<Rightarrow> TaskHistoryEntry list" where
  "historyEntriesFor now task updates =
     map (\<lambda>e. \<lparr>timestamp = now, action = ActUpdated, details = entryKey e @ '' changed'',
                previousValue = taskField task e, newValue = entryValue e\<rparr>)
         (filter (changed task) updates)"

text \<open>The spread \<open>...updates\<close>: every key of the patch overwrites the task's field.\<close>

fun applyEntry :: "Task \<Rightarrow> UpdateEntry \<Rightarrow> Task" where
  "applyEntry task (UTitle v) = task\<lparr>title := v\<rparr>"
| "applyEntry task (UDescription v) = task\<lparr>description := v\<rparr>"
| "applyEntry task (UDeadline v) = task\<lparr>deadline := map_option patchInstant v\<rparr>"
| "applyEntry task (UPriority v) = task\<lparr>priority := v\<rparr>"
| "applyEntry task (UPriorityReason v) = task\<lparr>priorityReason := v\<rparr>"
| "applyEntry task (UScheduledDate v) = task\<lparr>scheduledDate := map_option patchInstant v\<rparr>"
| "applyEntry task (UEstimatedMinutes v) = task\<lparr>estimatedMinutes := v\<rparr>"
| "applyEntry task (UStatus v) = task\<lparr>status := v\<rparr>"

definition update ::
  "Platform \<Rightarrow> Date \<Rightarrow> TaskStore \<Rightarrow> string \<Rightarrow> TaskUpdate \<Rightarrow> bool \<Rightarrow> (js_error + Task) \<times> TaskStore" where
  "update pf now s i updates explicit =
     (if \<not> explicit then (Inl (Error ''Task modifications require explicit user request''), s)
      else case map_of (tasks s) i of
             None \<Rightarrow> (Inl (Error (''Task not found: '' @ i)), s)
           | Some task \<Rightarrow>
               (let updatedTask = (foldl applyEntry task updates)
                      \<lparr>updatedAt := now,
                       history := history task @ historyEntriesFor now task updates\<rparr>
                in (Inr updatedTask, persist pf (s\<lparr>tasks := AList.update i updatedTask (tasks s)\<rparr>))))"

definition complete ::
  "Platform \<Rightarrow> Date \<Rightarrow> TaskStore \<Rightarrow> string \<Rightarrow> (js_error + Task) \<times> TaskStore" where
  "complete pf now s i =
     (case map_of (tasks s) i of
        None \<Rightarrow> (Inl (Error (''Task not found: '' @ i)), s)
      | Some task \<Rightarrow>
          (let historyEntry =
                 \<lparr>timestamp = now, action = ActCompleted, details = ''Task marked as complete'',
                  previousValue = Some (JString (statusName (status task))),
                  newValue = Some (JString ''completed'')\<rparr>;
               updatedTask = task\<lparr>status := Completed, updatedAt := now,
                                  history := history task @ [historyEntry]\<rparr>
           in (Inr updatedTask, persist pf (s\<lparr>tasks := AList.update i updatedTask (tasks s)\<rparr>))))"

text \<open>\<open>defer\<close> (here \<open>defer_task\<close>); without a new date the task goes to tomorrow, 09:00 on the local clock.\<close>

definition defer_task ::
  "Platform \<Rightarrow> Date \<Rightarrow> TaskStore \<Rightarrow> string \<Rightarrow> Date option \<Rightarrow> (js_error + Task) \<times> TaskStore" where
  "defer_task pf now s i newDate =
     (case map_of (tasks s) i of
        None \<Rightarrow> (Inl (Error (''Task not found: '' @ i)), s)
      | Some task \<Rightarrow>
          (let tomorrow = setHours pf (setDate_getDate_plus pf now 1) 9;
               scheduled = (case newDate of None \<Rightarrow> tomorrow | Some d \<Rightarrow> d);
               historyEntry =
                 \<lparr>timestamp = now, action = ActDeferred,
                  details = ''Task deferred to '' @ toISOString pf scheduled,
                  previousValue = map_option (\<lambda>d. JString (toISOString pf d)) (TaskOf.scheduledDate task),
                  newValue = Some (JString (toISOString pf scheduled))\<rparr>;
               updatedTask = task\<lparr>status := Deferred, scheduledDate := Some scheduled,
                                  updatedAt := now, history := history task @ [historyEntry]\<rparr>
           in (Inr updatedTask, persist pf (s\<lparr>tasks := AList.update i updatedTask (tasks s)\<rparr>))))"

definition delete ::
  "Platform \<Rightarrow> Date \<Rightarrow> TaskStore \<Rightarrow> string \<Rightarrow> bool \<Rightarrow> (js_error + unit) \<times> TaskStore" where
  "delete pf now s i explicit =
     (if \<not> explicit then (Inl (Error ''Task deletion requires explicit user request''), s)
      else case map_of (tasks s) i of
             None \<Rightarrow> (Inl (Error (''Task not found: '' @ i)), s)
           | Some task \<Rightarrow>
               (let parent = (case TaskOf.parentId task of
                                None \<Rightarrow> None
                              | Some p \<Rightarrow> if p = [] then None else map_of (tasks s) p);
                    tasks1 = (case parent of
                                None \<Rightarrow> tasks s
                              | Some par \<Rightarrow>
                                  AList.update (id_task par)
                                    (par\<lparr>childIds := filter (\<lambda>cid. cid \<noteq> i) (childIds par),
                                         updatedAt := now,
                                         history := history par @
                                           [\<lparr>timestamp = now, action = ActUpdated,
                                             details = ''Removed child task: '' @ i,
                                             previousValue = Some (JStrings (childIds par)),
                                             newValue = Some (JStrings (filter (\<lambda>cid. cid \<noteq> i) (childIds par)))\<rparr>]\<rparr>)
                                    (tasks s))
                in (Inr (), persist pf (s\<lparr>tasks := AList.delete i tasks1\<rparr>))))"



subsection \<open>Sequences of store operations\<close>

datatype StoreOp =
    OpCreate Date string TaskInput
  | OpUpdate Date string TaskUpdate bool
  | OpComplete Date string
  | OpDefer Date string "Date option"
  | OpDelete Date string bool

fun applyOp :: "Platform \<Rightarrow> TaskStore \<Rightarrow> StoreOp \<Rightarrow> TaskStore" where
  "applyOp pf s (OpCreate now newId input) = snd (create pf now newId s input)"
| "applyOp pf s (OpUpdate now i updates explicit) = snd (update pf now s i updates explicit)"
| "applyOp pf s (OpComplete now i) = snd (complete pf now s i)"
| "applyOp pf s (OpDefer now i newDate) = snd (defer_task pf now s i newDate)"
| "applyOp pf s (OpDelete now i explicit) = snd (delete pf now s i explicit)"

definition runOps :: "Platform \<Rightarrow> TaskStore \<Rightarrow> StoreOp list \<Rightarrow> TaskStore" where
  "runOps pf s ops = foldl (applyOp pf) s ops"



section \<open>Ordering tasks (priority engine)\<close>

fun priorityOrder :: "PriorityLevel \<Rightarrow> int" where
  "priorityOrder High = 0"
| "priorityOrder Medium = 1"
| "priorityOrder Low = 2"

text \<open>The comparator that \<open>prioritizeTasks\<close> hands to \<open>sort\<close>.\<close>

definition compareTasks :: "Task \<Rightarrow> Task \<Rightarrow> int" where
  "compareTasks a b =
     (let priorityDiff = priorityOrder (TaskOf.priority a) - priorityOrder (TaskOf.priority b) in
      if priorityDiff \<noteq> 0 then priorityDiff
      else case (TaskOf.deadline a, TaskOf.deadline b) of
             (Some da, Some db) \<Rightarrow> da - db
           | (Some da, None) \<Rightarrow> - 1
           | (None, Some db) \<Rightarrow> 1
           | (None, None) \<Rightarrow> createdAt a - createdAt b)"

definition prioritizeTasks :: "Task list \<Rightarrow> Task list" where
  "prioritizeTasks ts = sortBy compareTasks ts"

text \<open>\<open>getNextTask\<close>: the head of the open tasks in that order, \<open>None\<close> for \<open>null\<close>.\<close>

definition getNextTask :: "Task list \<Rightarrow> Task option" where
  "getNextTask ts =
     (let pendingTasks = filter (\<lambda>t. status t = Pending \<or> status t = InProgress) ts in
      if length pendingTasks = 0 then None else Some (hd (prioritizeTasks pendingTasks)))"

section \<open>The atomization engine\<close>

definition ACTION_VERBS :: "string list" where
  "ACTION_VERBS =
     [''Write'', ''Draft'', ''Create'', ''Design'', ''Build'', ''Implement'', ''Develop'',
      ''Review'', ''Edit'', ''Update'', ''Fix'', ''Debug'', ''Test'', ''Verify'', ''Check'',
      ''Research'', ''Analyze'', ''Investigate'', ''Explore'', ''Study'', ''Learn'',
      ''Send'', ''Email'', ''Call'', ''Contact'', ''Schedule'', ''Meet'', ''Discuss'',
      ''Prepare'', ''Plan'', ''Organize'', ''Set up'', ''Configure'', ''Install'',
      ''Document'', ''Record'', ''Note'', ''List'', ''Outline'', ''Summarize'',
      ''Complete'', ''Finish'', ''Submit'', ''Deliver'', ''Present'', ''Share'',
      ''Gather'', ''Collect'', ''Find'', ''Locate'', ''Identify'', ''Select'',
      ''Define'', ''Specify'', ''Clarify'', ''Confirm'', ''Validate'', ''Approve'']"

text \<open>\<open>ensureActionVerb\<close>; \<open>title.split(' ')[0]\<close> is the title up to its first space.\<close>

definition ensureActionVerb :: "string \<Rightarrow> string" where
  "ensureActionVerb ttl =
     (let firstWord = takeWhile (\<lambda>c. c \<noteq> CHR '' '') ttl;
          isVerb = list_ex (\<lambda>verb. toLowerCase firstWord = toLowerCase verb) ACTION_VERBS;
          lowerTitle = toLowerCase ttl
      in if isVerb then ttl
         else if includesStr lowerTitle ''email'' \<or> includesStr lowerTitle ''message'' then ''Send '' @ ttl
         else if includesStr lowerTitle ''meeting'' \<or> includesStr lowerTitle ''call'' then ''Schedule '' @ ttl
         else if includesStr lowerTitle ''report'' \<or> includesStr lowerTitle ''document'' then ''Write '' @ ttl
         else if includesStr lowerTitle ''bug'' \<or> includesStr lowerTitle ''issue'' then ''Fix '' @ ttl
         else if includesStr lowerTitle ''test'' then ''Run '' @ ttl
         else ''Complete '' @ ttl)"

definition clampTimeEstimate :: "int \<Rightarrow> int" where
  "clampTimeEstimate minutes = max 15 (min 60 minutes)"

text \<open>\<open>Complete "\<dots>"\<close>, the default suggestion of minimum viable progress.\<close>

definition completeQuoted :: "string \<Rightarrow> string" where
  "completeQuoted ttl = ''Complete '' @ [CHR 0x22] @ ttl @ [CHR 0x22]"

text \<open>
  \<open>createSingleTaskResult\<close>.  \<open>task.estimatedMinutes ? \<dots> : 30\<close>: an absent estimate
  and the estimate 0 are both falsy.
\<close>

definition createSingleTaskResult :: "Task \<Rightarrow> AtomizationResult" where
  "createSingleTaskResult task =
     \<lparr>AtomizationResult.microTasks =
        [\<lparr>MicroTaskSuggestion.title = ensureActionVerb (TaskOf.title task),
          MicroTaskSuggestion.description = TaskOf.description task,
          MicroTaskSuggestion.estimatedMinutes =
            (case TaskOf.estimatedMinutes task of
               None \<Rightarrow> 30
             | Some m \<Rightarrow> if m \<noteq> 0 then clampTimeEstimate m else 30),
          MicroTaskSuggestion.dependsOn = [],
          isParallelizable = True\<rparr>],
      dependencies = [],
      parallelGroups = [[0]],
      AtomizationResult.mvpSuggestion =
        (case TaskOf.deadline task of
           None \<Rightarrow> None
         | Some d \<Rightarrow> Some (completeQuoted (TaskOf.title task)))\<rparr>"

text \<open>
  \<open>buildParallelGroups\<close>: the maximal runs of consecutive parallelizable micro-tasks.
  The state of the loop is the list of closed groups and the current group.
\<close>

fun parallelGroupsLoop ::
  "(nat \<times> MicroTaskSuggestion) list \<Rightarrow> nat list list \<Rightarrow> nat list \<Rightarrow> nat list list \<times> nat list" where
  "parallelGroupsLoop [] groups currentGroup = (groups, currentGroup)"
| "parallelGroupsLoop ((index, mt) # rest) groups currentGroup =
     (if isParallelizable mt then parallelGroupsLoop rest groups (currentGroup @ [index])
      else if length currentGroup > 0 then parallelGroupsLoop rest (groups @ [currentGroup]) []
      else parallelGroupsLoop rest groups currentGroup)"

definition buildParallelGroups :: "MicroTaskSuggestion list \<Rightarrow> nat list list" where
  "buildParallelGroups mts =
     (case parallelGroupsLoop (enumerate 0 mts) [] [] of
        (groups, currentGroup) \<Rightarrow>
          if length currentGroup > 0 then groups @ [currentGroup] else groups)"

text \<open>
  \<open>processLLMResponse\<close>.  \<open>mt.estimatedMinutes || 30\<close> replaces an absent estimate and
  the estimate 0; \<open>mt.dependsOn || []\<close> replaces an absent list.  The numbers of the
  answer are integers here, and \<open>String\<close> writes the decimal numeral of an index; a number
  with a fraction, or one so large that \<open>String\<close> writes it with an exponent, is outside
  the model.
\<close>

definition processMicroTask :: "LLMMicroTask \<Rightarrow> MicroTaskSuggestion" where
  "processMicroTask mt =
     \<lparr>MicroTaskSuggestion.title = ensureActionVerb (LLMMicroTask.title mt),
      MicroTaskSuggestion.description = LLMMicroTask.description mt,
      MicroTaskSuggestion.estimatedMinutes =
        clampTimeEstimate (case LLMMicroTask.estimatedMinutes mt of
                             None \<Rightarrow> 30
                           | Some m \<Rightarrow> if m \<noteq> 0 then m else 30),
      MicroTaskSuggestion.dependsOn =
        map String_of_int (case LLMMicroTask.dependsOn mt of None \<Rightarrow> [] | Some ds \<Rightarrow> ds),
      isParallelizable =
        (case LLMMicroTask.dependsOn mt of None \<Rightarrow> True | Some ds \<Rightarrow> length ds = 0)\<rparr>"

definition dependenciesOf :: "nat \<Rightarrow> nat \<times> MicroTaskSuggestion \<Rightarrow> Dependency list" where
  "dependenciesOf n p =
     (case p of (toIdx, mt) \<Rightarrow>
        concat (map (\<lambda>fromIndexStr.
                       case parseInt fromIndexStr of
                         None \<Rightarrow> []
                       | Some fromIdx \<Rightarrow>
                           if fromIdx < int n
                           then [\<lparr>fromIndex = fromIdx, toIndex = toIdx, dependencyType = Blocks\<rparr>]
                           else [])
                    (MicroTaskSuggestion.dependsOn mt)))"

definition processLLMResponse :: "AtomizationLLMResponse \<Rightarrow> Task \<Rightarrow> AtomizationResult" where
  "processLLMResponse response originalTask =
     (let mts = map processMicroTask (AtomizationLLMResponse.microTasks response);
          deps = concat (map (dependenciesOf (length mts)) (enumerate 0 mts));
          groups = buildParallelGroups mts;
          given = AtomizationLLMResponse.mvpSuggestion response;
          mvp = (if (given = None \<or> given = Some []) \<and> TaskOf.deadline originalTask \<noteq> None
                    \<and> length mts > 0
                 then Some (completeQuoted (MicroTaskSuggestion.title (mts ! 0)))
                 else given)
      in \<lparr>AtomizationResult.microTasks = mts, dependencies = deps, parallelGroups = groups,
          AtomizationResult.mvpSuggestion = mvp\<rparr>)"

text \<open>The prompt; \<open>if (task.description)\<close> and its like skip absent and empty values.\<close>

definition getSystemPrompt :: string where
  "getSystemPrompt =
     ''You are a task decomposition assistant. Your job is to break down large tasks into smaller, actionable micro-tasks.''
     @ [CHR 0x0A, CHR 0x0A] @ ''Rules:'' @ [CHR 0x0A]
     @ ''1. Each micro-task should take 15-60 minutes'' @ [CHR 0x0A]
     @ ''2. Each micro-task title MUST start with an action verb (e.g., '' @ [CHR 0x22] @ ''Write'' @ [CHR 0x22]
     @ '', '' @ [CHR 0x22] @ ''Review'' @ [CHR 0x22] @ '', '' @ [CHR 0x22] @ ''Send'' @ [CHR 0x22]
     @ '', '' @ [CHR 0x22] @ ''Create'' @ [CHR 0x22] @ '')'' @ [CHR 0x0A]
     @ ''3. Identify dependencies between tasks (which tasks must be done before others)'' @ [CHR 0x0A]
     @ ''4. Mark tasks that can be done in parallel'' @ [CHR 0x0A]
     @ ''5. Be specific and concrete - avoid vague tasks'' @ [CHR 0x0A]
     @ ''6. Aim for 3-7 micro-tasks for most tasks'' @ [CHR 0x0A, CHR 0x0A]
     @ ''Respond with valid JSON only.''"

definition buildAtomizationPrompt :: "Platform \<Rightarrow> Task \<Rightarrow> string" where
  "buildAtomizationPrompt pf task =
     ''Break down this task into micro-tasks:'' @ [CHR 0x0A, CHR 0x0A] @ ''Task: '' @ TaskOf.title task
     @ (case TaskOf.description task of
          None \<Rightarrow> []
        | Some d \<Rightarrow> if d = [] then [] else [CHR 0x0A] @ ''Description: '' @ d)
     @ (case TaskOf.deadline task of
          None \<Rightarrow> []
        | Some dl \<Rightarrow> [CHR 0x0A] @ ''Deadline: '' @ toISOString pf dl)
     @ (case TaskOf.estimatedMinutes task of
          None \<Rightarrow> []
        | Some m \<Rightarrow> if m = 0 then []
                    else [CHR 0x0A] @ ''Estimated total time: '' @ String_of_int m @ '' minutes'')
     @ (case originalGoal (context task) of
          None \<Rightarrow> []
        | Some g \<Rightarrow> if g = [] then [] else [CHR 0x0A] @ ''Original goal: '' @ g)"

text \<open>
  The messages of the one request, as pairs of role and content.  The text-generation
  collaborator is a function of them: \<open>Inr\<close> the parsed answer, \<open>Inl\<close> the error with
  which \<open>generateJSON\<close> rejects.
\<close>

definition atomizationMessages :: "Platform \<Rightarrow> Task \<Rightarrow> (string \<times> string) list" where
  "atomizationMessages pf task =
     [(''system'', getSystemPrompt), (''user'', buildAtomizationPrompt pf task)]"

type_synonym LLMProvider = "(string \<times> string) list \<Rightarrow> js_error + AtomizationLLMResponse"

definition atomize :: "Platform \<Rightarrow> LLMProvider \<Rightarrow> Task \<Rightarrow> AtomizationResult" where
  "atomize pf generateJSON task =
     (if (case TaskOf.estimatedMinutes task of None \<Rightarrow> False | Some m \<Rightarrow> m \<noteq> 0 \<and> m \<le> 60)
      then createSingleTaskResult task
      else case generateJSON (atomizationMessages pf task) of
             Inr result \<Rightarrow> processLLMResponse result task
           | Inl error \<Rightarrow> createSingleTaskResult task)"

section \<open>Topological order of micro-tasks (atomization engine)\<close>

text \<open>
  \<open>topologicalSort\<close>.  The loop over the micro-tasks builds the adjacency lists and the
  in-degrees.  An index string that \<open>parseInt\<close> cannot read, an index not below \<open>n\<close> and
  the index of the micro-task itself are skipped.  Nothing skips a negative index:
  \<open>adjList[fromIndex]\<close> is \<open>undefined\<close> then, and \<open>push\<close> on it throws a TypeError.
\<close>

type_synonym graph = "nat list list \<times> int list"

definition addDependency :: "nat \<Rightarrow> nat \<Rightarrow> graph \<Rightarrow> string \<Rightarrow> js_error + graph" where
  "addDependency n toIdx g fromIndexStr =
     (case g of (adjList, inDegree) \<Rightarrow>
        (case parseInt fromIndexStr of
           None \<Rightarrow> Inr g
         | Some fromIdx \<Rightarrow>
             if fromIdx < int n \<and> fromIdx \<noteq> int toIdx then
               (if fromIdx < 0 then Inl TypeError
                else Inr (adjList[nat fromIdx := adjList ! nat fromIdx @ [toIdx]],
                          inDegree[toIdx := inDegree ! toIdx + 1]))
             else Inr g))"

fun addDependencies :: "nat \<Rightarrow> nat \<Rightarrow> string list \<Rightarrow> graph \<Rightarrow> js_error + graph" where
  "addDependencies n toIdx [] g = Inr g"
| "addDependencies n toIdx (fromIndexStr # rest) g =
     (case addDependency n toIdx g fromIndexStr of
        Inl e \<Rightarrow> Inl e
      | Inr g' \<Rightarrow> addDependencies n toIdx rest g')"

fun buildGraph :: "nat \<Rightarrow> (nat \<times> MicroTaskSuggestion) list \<Rightarrow> graph \<Rightarrow> js_error + graph" where
  "buildGraph n [] g = Inr g"
| "buildGraph n ((toIdx, mt) # rest) g =
     (case addDependencies n toIdx (MicroTaskSuggestion.dependsOn mt) g of
        Inl e \<Rightarrow> Inl e
      | Inr g' \<Rightarrow> buildGraph n rest g')"

text \<open>
  The inner loop of Kahn's algorithm, over the neighbours of the node taken from the
  queue: \<open>inDegree[neighbor]--\<close>, and the neighbour joins the queue when its in-degree is 0.
  (An index outside the array would read \<open>undefined\<close> and store NaN, which is not 0.)
\<close>

fun relax :: "nat list \<Rightarrow> int list \<Rightarrow> nat list \<Rightarrow> int list \<times> nat list" where
  "relax [] inDegree queue = (inDegree, queue)"
| "relax (neighbor # rest) inDegree queue =
     relax rest (inDegree[neighbor := inDegree ! neighbor - 1])
       (if neighbor < length inDegree \<and> inDegree ! neighbor - 1 = 0 then queue @ [neighbor]
        else queue)"

definition positives :: "int list \<Rightarrow> nat" where
  "positives xs = length (filter (\<lambda>x. 0 < x) xs)"

lemma positives_update:
  "i < length xs \<Longrightarrow>
   positives (xs[i := y]) + (if 0 < xs ! i then 1 else 0) = positives xs + (if 0 < y then 1 else 0)"
proof (induction xs arbitrary: i)
  case Nil
  then show ?case by simp
next
  case (Cons x xs)
  show ?case
  proof (cases i)
    case 0
    then show ?thesis by (simp add: positives_def)
  next
    case (Suc j)
    then have "j < length xs" using Cons.prems by simp
    from Cons.IH[OF this] show ?thesis using Suc by (simp add: positives_def)
  qed
qed

lemma relax_measure:
  "relax vs inDegree queue = (inDegree', queue') \<Longrightarrow>
   length queue' + positives inDegree' \<le> length queue + positives inDegree"
proof (induction vs arbitrary: inDegree queue)
  case Nil
  then show ?case by simp
next
  case (Cons v vs)
  define d where "d = inDegree ! v"
  let ?d = "inDegree[v := d - 1]"
  let ?q = "if v < length inDegree \<and> d - 1 = 0 then queue @ [v] else queue"
  from Cons.prems have "relax vs ?d ?q = (inDegree', queue')" by (simp add: d_def)
  from Cons.IH[OF this] have ih: "length queue' + positives inDegree' \<le> length ?q + positives ?d" .
  have "length ?q + positives ?d \<le> length queue + positives inDegree"
  proof (cases "v < length inDegree")
    case True
    have u: "positives ?d + (if 0 < d then 1 else 0) = positives inDegree + (if 0 < d - 1 then 1 else 0)"
      using positives_update[OF True, of "d - 1"] by (simp add: d_def)
    show ?thesis
    proof (cases "d - 1 = 0")
      case True
      then have "d = 1" by simp
      with u True \<open>v < length inDegree\<close> show ?thesis by simp
    next
      case False
      with u show ?thesis by (simp split: if_splits)
    qed
  next
    case False
    then show ?thesis by (simp add: list_update_beyond)
  qed
  with ih show ?case by linarith
qed

text \<open>
  The outer loop: while the queue is not empty, its head moves to the result and its
  neighbours are relaxed.  (\<open>adjList[node]\<close> outside the array would be \<open>undefined\<close>, and
  iterating over it a TypeError.)
\<close>

function kahn :: "nat list list \<Rightarrow> int list \<Rightarrow> nat list \<Rightarrow> nat list \<Rightarrow> js_error + nat list" where
  "kahn adjList inDegree [] result = Inr result"
| "kahn adjList inDegree (node # queue) result =
     (if node < length adjList then
        (case relax (adjList ! node) inDegree queue of
           (inDegree', queue') \<Rightarrow> kahn adjList inDegree' queue' (result @ [node]))
      else Inl TypeError)"
  by pat_completeness auto
termination
  apply (relation "measure (\<lambda>(adjList, inDegree, queue, result). length queue + positives inDegree)")
   apply simp
  by (auto dest: relax_measure[OF sym])

definition topologicalSort :: "MicroTaskSuggestion list \<Rightarrow> js_error + nat list" where
  "topologicalSort mts =
     (let n = length mts in
      case buildGraph n (enumerate 0 mts) (replicate n [], replicate n 0) of
        Inl e \<Rightarrow> Inl e
      | Inr (adjList, inDegree) \<Rightarrow>
          (case kahn adjList inDegree (filter (\<lambda>i. inDegree ! i = 0) [0..<n]) [] of
             Inl e \<Rightarrow> Inl e
           | Inr result \<Rightarrow> if length result \<noteq> n then Inr [0..<n] else Inr result))"

text \<open>\<open>orderByDependencies\<close>: the micro-tasks in that order.\<close>

definition orderByDependencies :: "MicroTaskSuggestion list \<Rightarrow> js_error + MicroTaskSuggestion list" where
  "orderByDependencies mts =
     (case topologicalSort mts of
        Inl e \<Rightarrow> Inl e
      | Inr order \<Rightarrow> Inr (map (\<lambda>i. mts ! i) order))"

text \<open>
  The dependency graph that the sort works on: an edge from \<open>u\<close> to \<open>v\<close> for every entry
  of \<open>dependsOn\<close> of the micro-task \<open>v\<close> that reads as the index \<open>u\<close> of another micro-task.
  The edges are listed in the order in which the loop meets them.
\<close>

definition edgesInto :: "nat \<Rightarrow> nat \<Rightarrow> string list \<Rightarrow> (nat \<times> nat) list" where
  "edgesInto n toIdx strs =
     concat (map (\<lambda>fromIndexStr.
                    case parseInt fromIndexStr of
                      None \<Rightarrow> []
                    | Some fromIdx \<Rightarrow>
                        if 0 \<le> fromIdx \<and> fromIdx < int n \<and> fromIdx \<noteq> int toIdx
                        then [(nat fromIdx, toIdx)] else [])
                 strs)"

definition dependencyEdges :: "MicroTaskSuggestion list \<Rightarrow> (nat \<times> nat) list" where
  "dependencyEdges mts =
     concat (map (\<lambda>(toIdx, mt). edgesInto (length mts) toIdx (MicroTaskSuggestion.dependsOn mt))
                 (enumerate 0 mts))"

text \<open>No entry of any \<open>dependsOn\<close> reads as a negative number.\<close>

definition nonNegativeIndices :: "MicroTaskSuggestion list \<Rightarrow> bool" where
  "nonNegativeIndices mts =
     list_all (\<lambda>mt. list_all (\<lambda>s. case parseInt s of None \<Rightarrow> True | Some i \<Rightarrow> 0 \<le> i)
                       (MicroTaskSuggestion.dependsOn mt)) mts"

text \<open>\<open>u\<close> comes before \<open>v\<close> in a list.\<close>

definition comesBefore :: "'a \<Rightarrow> 'a \<Rightarrow> 'a list \<Rightarrow> bool" where
  "comesBefore u v xs = (\<exists>i j. i < j \<and> j < length xs \<and> xs ! i = u \<and> xs ! j = v)"

subsection \<open>The graph and the invariant of the loop\<close>

text \<open>
  \<open>graphOf n es\<close>: the adjacency lists and in-degrees of the edge list \<open>es\<close> on the nodes
  below \<open>n\<close>.  \<open>remaining es R v\<close>: the number of edges into \<open>v\<close> that start outside \<open>R\<close>.
  \<open>kahnInv\<close>: what holds whenever the outer loop of Kahn's algorithm tests its queue
  (\<open>todo\<close> empty) and during the inner loop (\<open>todo\<close> the neighbours still to relax).
\<close>

definition graphOf :: "nat \<Rightarrow> (nat \<times> nat) list \<Rightarrow> graph" where
  "graphOf n es =
     (map (\<lambda>u. map snd (filter (\<lambda>e. fst e = u) es)) [0..<n],
      map (\<lambda>v. int (length (filter (\<lambda>e. snd e = v) es))) [0..<n])"

definition remaining :: "(nat \<times> nat) list \<Rightarrow> nat set \<Rightarrow> nat \<Rightarrow> int" where
  "remaining es R v = int (length (filter (\<lambda>e. snd e = v \<and> fst e \<notin> R) es))"

definition kahnInv ::
  "nat \<Rightarrow> (nat \<times> nat) list \<Rightarrow> nat list \<Rightarrow> int list \<Rightarrow> nat list \<Rightarrow> nat list \<Rightarrow> bool" where
  "kahnInv n es todo inDegree queue result =
     (length inDegree = n
      \<and> distinct (result @ queue)
      \<and> set (result @ queue) \<subseteq> {..<n}
      \<and> set todo \<subseteq> {..<n}
      \<and> (\<forall>v<n. inDegree ! v = remaining es (set result) v + int (count_list todo v))
      \<and> (\<forall>v<n. (v \<in> set (result @ queue)) = (inDegree ! v = 0))
      \<and> (\<forall>(u, v)\<in>set es. v \<in> set (result @ queue) \<longrightarrow> comesBefore u v (result @ queue)))"

section \<open>The dates of a task\<close>

text \<open>
  The dates a task holds, and what the round trip through the persisted shape needs of
  the platform at a date: the Date constructor reads back what \<open>toISOString\<close> wrote
  (ECMAScript: \<open>Date.parse(x.toISOString())\<close> is \<open>x.valueOf()\<close>), which is never the empty
  string.
\<close>

definition taskDates :: "Task \<Rightarrow> Date list" where
  "taskDates task =
     [createdAt task, updatedAt task]
     @ (case TaskOf.deadline task of None \<Rightarrow> [] | Some d \<Rightarrow> [d])
     @ (case TaskOf.scheduledDate task of None \<Rightarrow> [] | Some d \<Rightarrow> [d])
     @ map timestamp (history task)"

definition roundTrips :: "Platform \<Rightarrow> Date \<Rightarrow> bool" where
  "roundTrips pf d = (parseDate pf (toISOString pf d) = Some d \<and> toISOString pf d \<noteq> [])"

section \<open>The progress manager (progress-manager.ts)\<close>

text \<open>\<open>formatDate\<close>: \<open>date.toISOString().split('T')[0]\<close>, the UTC calendar date.\<close>

definition formatDate :: "Platform \<Rightarrow> Date \<Rightarrow> string" where
  "formatDate pf d = takeWhile (\<lambda>c. c \<noteq> CHR ''T'') (toISOString pf d)"

text \<open>\<open>Set.prototype.add\<close> on a set kept in insertion order.\<close>

definition addToSet :: "'a \<Rightarrow> 'a list \<Rightarrow> 'a list" where
  "addToSet x xs = (if x \<in> set xs then xs else xs @ [x])"

definition getCompletionDates :: "Platform \<Rightarrow> TaskStore \<Rightarrow> string list" where
  "getCompletionDates pf s =
     foldl (\<lambda>dates task.
              if status task = Completed then
                (case find (\<lambda>h. action h = ActCompleted) (history task) of
                   None \<Rightarrow> dates
                 | Some completedEntry \<Rightarrow> addToSet (formatDate pf (timestamp completedEntry)) dates)
              else dates)
           [] (getAll s)"

text \<open>
  The order of the code units of two strings: \<open>a < b\<close> on strings, and the sign of
  \<open>a.localeCompare(b)\<close> on the strings it meets here, dates of the form \<open>YYYY-MM-DD\<close>.
\<close>

fun compareStrings :: "string \<Rightarrow> string \<Rightarrow> int" where
  "compareStrings [] [] = 0"
| "compareStrings [] (b # bs) = - 1"
| "compareStrings (a # as) [] = 1"
| "compareStrings (a # as) (b # bs) =
     (if (of_char a :: int) < of_char b then - 1
      else if (of_char b :: int) < of_char a then 1
      else compareStrings as bs)"

definition localeCompare :: "string \<Rightarrow> string \<Rightarrow> int" where
  "localeCompare a b = compareStrings a b"

definition stringLess :: "string \<Rightarrow> string \<Rightarrow> bool" where
  "stringLess a b = (compareStrings a b < 0)"

text \<open>
  The step of the loop to the previous day: \<open>new Date(currentDate)\<close>, then
  \<open>setDate(getDate() - 1)\<close> on the local clock, then \<open>formatDate\<close>.  On an Invalid Date
  \<open>toISOString\<close> throws a RangeError.
\<close>

definition previousDay :: "Platform \<Rightarrow> string \<Rightarrow> js_error + string" where
  "previousDay pf currentDate =
     (case parseDate pf currentDate of
        None \<Rightarrow> Inl RangeError
      | Some prevDate \<Rightarrow> Inr (formatDate pf (setDate_getDate_plus pf prevDate (- 1))))"

fun streakLoop :: "Platform \<Rightarrow> string list \<Rightarrow> int \<Rightarrow> string \<Rightarrow> js_error + int" where
  "streakLoop pf [] streak currentDate = Inr streak"
| "streakLoop pf (date # rest) streak currentDate =
     (if date = currentDate then
        (case previousDay pf currentDate of
           Inl e \<Rightarrow> Inl e
         | Inr prev \<Rightarrow> streakLoop pf rest (streak + 1) prev)
      else if stringLess date currentDate then Inr streak
      else streakLoop pf rest streak currentDate)"

text \<open>
  \<open>calculateStreak\<close>; \<open>now\<close> is the reading of \<open>new Date()\<close> for today and \<open>now'\<close> the
  reading of \<open>Date.now()\<close> for yesterday.
\<close>

definition calculateStreak :: "Platform \<Rightarrow> Date \<Rightarrow> Date \<Rightarrow> TaskStore \<Rightarrow> js_error + int" where
  "calculateStreak pf now now' s =
     (let completionDates = getCompletionDates pf s in
      if length completionDates = 0 then Inr 0
      else
        (let sortedDates = sortBy (\<lambda>a b. localeCompare b a) completionDates;
             today = formatDate pf now;
             yesterday = formatDate pf (now' - 24 * 60 * 60 * 1000)
         in if sortedDates ! 0 \<noteq> today \<and> sortedDates ! 0 \<noteq> yesterday then Inr 0
            else streakLoop pf sortedDates 0
                   (if sortedDates ! 0 = today then today else yesterday)))"

section \<open>Sample data\<close>

text \<open>
  A task created at 2023-11-14 22:13:20 UTC and due 20 hours later, with stored priority
  low, no parent and no children; and a store that holds it.
\<close>

definition dueSoonTask :: Task where
  "dueSoonTask =
     \<lparr>id_task = ''t1'', createdAt = 1700000000000, updatedAt = 1700000000000,
      title = ''Write quarterly report'', description = None,
      rawInput = ''Write quarterly report'', parentId = None, childIds = [],
      deadline = Some 1700072000000, scheduledDate = None, estimatedMinutes = None,
      priority = Low, priorityReason = ''User specified'', status = Pending,
      context = \<lparr>originalGoal = None, parentContext = None, notes = [], relatedTaskIds = []\<rparr>,
      history = [\<lparr>timestamp = 1700000000000, action = ActCreated, details = ''Task created'',
                  previousValue = None, newValue = None\<rparr>]\<rparr>"

definition sampleStore :: TaskStore where
  "sampleStore = \<lparr>tasks = [(''t1'', dueSoonTask)], storage = None\<rparr>"


definition orphanInput :: TaskInput where
  "orphanInput =
     \<lparr>TaskInput.rawInput = ''Collect the sales figures'', TaskInput.title = None,
      TaskInput.description = None, TaskInput.parentId = Some ''no-such-task'',
      TaskInput.deadline = None, TaskInput.scheduledDate = None,
      TaskInput.estimatedMinutes = Some 30, TaskInput.priority = None\<rparr>"

text \<open>A task of the same level and deadline as \<open>dueSoonTask\<close>, created earlier.\<close>

definition olderTask :: Task where
  "olderTask = dueSoonTask\<lparr>id_task := ''t0'', createdAt := 1699900000000, updatedAt := 1699900000000\<rparr>"

text \<open>
  An answer of the collaborator with a negative estimate, and a collaborator whose
  request fails.
\<close>

definition negativeEstimateResponse :: AtomizationLLMResponse where
  "negativeEstimateResponse =
     \<lparr>AtomizationLLMResponse.microTasks =
        [\<lparr>LLMMicroTask.title = ''Draft the outline'', LLMMicroTask.description = None,
          LLMMicroTask.estimatedMinutes = Some (- 5), LLMMicroTask.dependsOn = None\<rparr>],
      AtomizationLLMResponse.mvpSuggestion = None\<rparr>"

definition failingProvider :: LLMProvider where
  "failingProvider messages = Inl (Error ''fetch failed'')"

text \<open>The task \<open>dueSoonTask\<close> after it was given a scheduled date.\<close>

definition scheduledTask :: Task where
  "scheduledTask =
     dueSoonTask
       \<lparr>updatedAt := 1700000003000,
        scheduledDate := Some 1700040000000,
        history := history dueSoonTask @
          [\<lparr>timestamp = 1700000003000, action = ActUpdated, details = ''scheduledDate changed'',
            previousValue = None, newValue = Some (JDate 1700040000000)\<rparr>]\<rparr>"

text \<open>
  Three tasks, completed on 2024-11-02, 2024-11-03 and 2024-11-04 (each time in the
  afternoon, UTC), built with the operations of the store; and one task completed on
  2024-11-01 only.
\<close>

definition emptyStore :: TaskStore where
  "emptyStore = \<lparr>tasks = [], storage = None\<rparr>"

definition plainInput :: "string \<Rightarrow> TaskInput" where
  "plainInput raw =
     \<lparr>TaskInput.rawInput = raw, TaskInput.title = None, TaskInput.description = None,
      TaskInput.parentId = None, TaskInput.deadline = None, TaskInput.scheduledDate = None,
      TaskInput.estimatedMinutes = None, TaskInput.priority = None\<rparr>"

definition threeDaysOps :: "StoreOp list" where
  "threeDaysOps =
     [OpCreate 1730500000000 ''a'' (plainInput ''Draft the agenda''),
      OpCreate 1730500001000 ''b'' (plainInput ''Send the invitations''),
      OpCreate 1730500002000 ''c'' (plainInput ''Review the minutes''),
      OpComplete 1730559600000 ''a'',
      OpComplete 1730646000000 ''b'',
      OpComplete 1730728800000 ''c'']"

definition oneOldDayOps :: "StoreOp list" where
  "oneOldDayOps =
     [OpCreate 1730400000000 ''a'' (plainInput ''Draft the agenda''),
      OpComplete 1730473200000 ''a'']"

text \<open>
  Micro-tasks that differ in their dependencies only: a chain (2 before 0 before 1), a
  micro-task that names itself, and one with the index -1.
\<close>

definition microTaskWith :: "string list \<Rightarrow> MicroTaskSuggestion" where
  "microTaskWith deps =
     \<lparr>MicroTaskSuggestion.title = ''Write the section'', MicroTaskSuggestion.description = None,
      MicroTaskSuggestion.estimatedMinutes = 30, MicroTaskSuggestion.dependsOn = deps,
      isParallelizable = (deps = [])\<rparr>"

definition chainedTasks :: "MicroTaskSuggestion list" where
  "chainedTasks = [microTaskWith [''2''], microTaskWith [''0''], microTaskWith []]"

definition selfDependentTasks :: "MicroTaskSuggestion list" where
  "selfDependentTasks = [microTaskWith [''1''], microTaskWith [''1'']]"

definition negativeIndexTasks :: "MicroTaskSuggestion list" where
  "negativeIndexTasks = [microTaskWith [], microTaskWith [''-1'']]"

text \<open>
  The task \<open>dueSoonTask\<close> with a description, a store that holds it, and a patch of three
  defined values: a new title, the status the task has, and a new Date object for the
  instant of its deadline.
\<close>

definition describedTask :: Task where
  "describedTask = dueSoonTask\<lparr>description := Some ''Figures for the third quarter''\<rparr>"

definition describedStore :: TaskStore where
  "describedStore = \<lparr>tasks = [(''t1'', describedTask)], storage = None\<rparr>"


chapter \<open>Properties\<close>

section \<open>Priority engine\<close>

lemma Math_round_lower: "real_of_int k \<le> x \<Longrightarrow> k \<le> Math_round x"
  unfolding Math_round_def by (simp add: le_floor_iff)

lemma calculateAgeFactor_lower:
  assumes "createdAt task \<le> now"
  shows "30 \<le> value (calculateAgeFactor now task)"
proof -
  define x where "x = real_of_int (now - createdAt task) / (1000 * 60 * 60 * 24)"
  have "0 \<le> x" using assms by (simp add: x_def)
  then have "real_of_int 30 \<le> 30 + x * 10" by simp
  then have "30 \<le> Math_round (30 + x * 10)" by (rule Math_round_lower)
  then show ?thesis by (simp add: calculateAgeFactor_def Let_def x_def)
qed

lemma calculateHierarchyFactor_lower: "40 \<le> value (calculateHierarchyFactor task)"
  by (simp add: calculateHierarchyFactor_def)

lemma calculateDeadlineFactor_within_day:
  "TaskOf.deadline task = Some dl \<Longrightarrow> dl - now \<le> 86400000 \<Longrightarrow>
   value (calculateDeadlineFactor now task) = 100 \<and> weight (calculateDeadlineFactor now task) = 50"
  by (simp add: calculateDeadlineFactor_def HOURS_IN_DAY_def Let_def)

text \<open>
  What the engine does guarantee: a task due within 24 hours (or overdue) that was not
  created after the call and whose stored priority is high or medium comes out high.
\<close>

lemma calculatePriority_within_day_not_low:
  assumes "TaskOf.deadline task = Some dl" and "dl - nowD \<le> 86400000"
    and "createdAt task \<le> nowA" and "TaskOf.priority task \<noteq> Low"
  shows "level (calculatePriority nowD nowA task) = High"
proof -
  let ?a = "value (calculateAgeFactor nowA task)"
  let ?h = "value (calculateHierarchyFactor task)"
  let ?p = "priorityValues (TaskOf.priority task)"
  define tot where "tot = 5000 + ?p * 30 + ?a * 10 + ?h * 10"
  have p: "50 \<le> ?p" using assms(4) by (cases "TaskOf.priority task") simp_all
  have tot: "7200 \<le> tot"
    unfolding tot_def
    using p calculateAgeFactor_lower[OF assms(3)] calculateHierarchyFactor_lower[of task]
    by linarith
  have sc: "score (calculatePriority nowD nowA task) = Math_round (real_of_int tot / 100)"
    using calculateDeadlineFactor_within_day[OF assms(1,2)]
    by (simp add: tot_def calculatePriority_def Let_def calculateExistingPriorityFactor_def
        calculateAgeFactor_def calculateHierarchyFactor_def)
  have "real_of_int 7200 \<le> real_of_int tot" using tot by (simp only: of_int_le_iff)
  then have "real_of_int 70 \<le> real_of_int tot / 100" by simp
  then have "70 \<le> Math_round (real_of_int tot / 100)" by (rule Math_round_lower)
  then have "70 \<le> score (calculatePriority nowD nowA task)" using sc by simp
  then show ?thesis by (simp add: calculatePriority_def Let_def scoreToLevel_def)
qed

text \<open>
  Claim C1: every task whose deadline is within 24 hours of the current instant is
  classified high, whatever its stored priority, age and place in the hierarchy.
  The code does not do that.  For \<open>dueSoonTask\<close>, classified at the instant of its
  creation, 20 hours before its deadline, the factors are 100 (deadline), 20 (stored
  priority low), 30 (age) and 40 (standalone), the score is
  (100 * 50 + 20 * 30 + 30 * 10 + 40 * 10) / 100 = 63, below the threshold 70, and the level
  is medium, while the reason returned with it reads "High: Due within 24 hours".
\<close>

theorem calculatePriority_due_in_20_hours_stored_low:
  "level (calculatePriority 1700000000000 1700000000000 dueSoonTask) = Medium
   \<and> score (calculatePriority 1700000000000 1700000000000 dueSoonTask) = 63
   \<and> reason (calculatePriority 1700000000000 1700000000000 dueSoonTask) = ''High: Due within 24 hours''"
  by (simp add: calculatePriority_def calculateDeadlineFactor_def
      calculateExistingPriorityFactor_def calculateAgeFactor_def calculateHierarchyFactor_def
      scoreToLevel_def generateReason_def Math_round_def HOURS_IN_DAY_def dueSoonTask_def Let_def)

section \<open>Task store\<close>

lemma tasks_persist [simp]: "tasks (persist pf s) = tasks s"
  by (simp add: persist_def split: option.splits)

lemma history_foldl_applyEntry [simp]: "history (foldl applyEntry t us) = history t"
proof (induction us arbitrary: t)
  case Nil
  show ?case by simp
next
  case (Cons u us)
  show ?case by (cases u) (simp_all add: Cons.IH)
qed

lemma id_task_foldl_applyEntry [simp]: "id_task (foldl applyEntry t us) = id_task t"
proof (induction us arbitrary: t)
  case Nil
  show ?case by simp
next
  case (Cons u us)
  show ?case by (cases u) (simp_all add: Cons.IH)
qed



lemma AList_update_fresh: "k \<notin> fst ` set al \<Longrightarrow> AList.update k v al = al @ [(k, v)]"
  by (induction al) auto


text \<open>
  Claim C2: \<open>update\<close> and \<open>delete\<close> called with \<open>explicit = false\<close> throw, and the store
  they leave is the store they found: no task changed or removed, no history entry added,
  nothing saved.
\<close>

theorem update_delete_require_explicit:
  "update pf now s i updates False
     = (Inl (Error ''Task modifications require explicit user request''), s)
   \<and> delete pf now s i False
     = (Inl (Error ''Task deletion requires explicit user request''), s)"
  by (simp add: update_def delete_def)








lemma priorityName_inject [simp]: "(priorityName a = priorityName b) = (a = b)"
  by (cases a; cases b) simp_all

lemma statusName_inject [simp]: "(statusName a = statusName b) = (a = b)"
  by (cases a; cases b) simp_all




text \<open>
  A key that carries \<open>undefined\<close> is not recorded (\<open>value !== undefined\<close> fails), yet the
  spread \<open>...updates\<close> writes it: the patch below, a title with an emptied description,
  erases the description of the task and leaves no entry.
\<close>

lemma update_undefined_description:
  "update utcPlatform 1700000001000 describedStore ''t1''
       [UTitle ''Write quarterly report'', UDescription None] True
     = (Inr (dueSoonTask\<lparr>updatedAt := 1700000001000\<rparr>),
        \<lparr>tasks = [(''t1'', dueSoonTask\<lparr>updatedAt := 1700000001000\<rparr>)], storage = None\<rparr>)
   \<and> TaskOf.description describedTask = Some ''Figures for the third quarter''
   \<and> TaskOf.description (dueSoonTask\<lparr>updatedAt := 1700000001000\<rparr>) = None
   \<and> history (dueSoonTask\<lparr>updatedAt := 1700000001000\<rparr>) = history describedTask"
  by (simp add: update_def describedStore_def describedTask_def dueSoonTask_def
      historyEntriesFor_def persist_def Let_def)



text \<open>
  Claim C10: \<open>create\<close> with a \<open>parentId\<close> that the store does not hold succeeds; the new
  task keeps the dangling \<open>parentId\<close>, its \<open>parentContext\<close> and \<open>originalGoal\<close> stay unset,
  and the map of the store is the old one with the new task added at its end, so no
  stored task is touched.  (\<open>newId\<close>, the fresh identifier, is not a key of the store.)
\<close>

theorem create_dangling_parent:
  assumes "TaskInput.parentId input = Some p" and "get s p = None" and "get s newId = None"
  shows "\<exists>task s'. create pf now newId s input = (Inr task, s')
      \<and> TaskOf.parentId task = Some p
      \<and> parentContext (context task) = None \<and> originalGoal (context task) = None
      \<and> tasks s' = tasks s @ [(newId, task)]"
proof -
  have "newId \<notin> fst ` set (tasks s)" using assms(3) by (simp add: get_def map_of_eq_None_iff)
  then show ?thesis using assms(1,2)
    by (simp add: create_def get_def Let_def AList_update_fresh)
qed

theorem create_dangling_parent_witness:
  "TaskInput.parentId orphanInput = Some ''no-such-task''
   \<and> get sampleStore ''no-such-task'' = None \<and> get sampleStore ''t2'' = None
   \<and> (\<exists>task s'. create utcPlatform 1700000005000 ''t2'' sampleStore orphanInput = (Inr task, s')
         \<and> TaskOf.parentId task = Some ''no-such-task''
         \<and> parentContext (context task) = None \<and> originalGoal (context task) = None
         \<and> tasks s' = tasks sampleStore @ [(''t2'', task)])"
proof -
  have h1: "TaskInput.parentId orphanInput = Some ''no-such-task''" by (simp add: orphanInput_def)
  have h2: "get sampleStore ''no-such-task'' = None" by (simp add: get_def sampleStore_def)
  have h3: "get sampleStore ''t2'' = None" by (simp add: get_def sampleStore_def)
  show ?thesis
    using h1 h2 h3 create_dangling_parent[OF h1 h2 h3, of utcPlatform 1700000005000] by blast
qed

section \<open>Ordering tasks\<close>

lemma mset_insertBy: "mset (insertBy cmp x ys) = add_mset x (mset ys)"
  by (induction ys) auto

lemma mset_sortBy: "mset (sortBy cmp xs) = mset xs"
  by (induction xs) (auto simp: sortBy_def mset_insertBy)

lemma set_insertBy: "set (insertBy cmp x ys) = insert x (set ys)"
  by (induction ys) auto

lemma sorted_insertBy:
  assumes total: "\<And>a b. cmp a b \<le> 0 \<or> cmp b a \<le> 0"
    and trans: "\<And>a b c. cmp a b \<le> 0 \<Longrightarrow> cmp b c \<le> 0 \<Longrightarrow> cmp a c \<le> 0"
  shows "sorted_wrt (\<lambda>a b. cmp a b \<le> 0) ys \<Longrightarrow> sorted_wrt (\<lambda>a b. cmp a b \<le> 0) (insertBy cmp x ys)"
proof (induction ys)
  case Nil
  show ?case by simp
next
  case (Cons y ys)
  show ?case
  proof (cases "cmp x y \<le> 0")
    case True
    then show ?thesis using Cons.prems trans by auto
  next
    case False
    then have "cmp y x \<le> 0" using total by blast
    then show ?thesis using False Cons by (auto simp: set_insertBy)
  qed
qed

lemma sorted_sortBy:
  assumes total: "\<And>a b. cmp a b \<le> 0 \<or> cmp b a \<le> 0"
    and trans: "\<And>a b c. cmp a b \<le> 0 \<Longrightarrow> cmp b c \<le> 0 \<Longrightarrow> cmp a c \<le> 0"
  shows "sorted_wrt (\<lambda>a b. cmp a b \<le> 0) (sortBy cmp xs)"
proof (induction xs)
  case Nil
  show ?case by (simp add: sortBy_def)
next
  case (Cons x xs)
  have "sortBy cmp (x # xs) = insertBy cmp x (sortBy cmp xs)" by (simp add: sortBy_def)
  then show ?case using sorted_insertBy[of cmp, OF total trans] Cons by simp
qed

lemma compareTasks_total: "compareTasks a b \<le> 0 \<or> compareTasks b a \<le> 0"
  by (cases "TaskOf.priority a"; cases "TaskOf.priority b")
     (auto simp: compareTasks_def split: option.splits)

lemma compareTasks_trans:
  "compareTasks a b \<le> 0 \<Longrightarrow> compareTasks b c \<le> 0 \<Longrightarrow> compareTasks a c \<le> 0"
  by (cases "TaskOf.priority a"; cases "TaskOf.priority b"; cases "TaskOf.priority c")
     (auto simp: compareTasks_def split: option.splits if_splits)

text \<open>
  What \<open>prioritizeTasks\<close> does guarantee: its result is a permutation of its argument,
  ordered by the comparator, hence by level (high, medium, low) first.
\<close>

lemma prioritizeTasks_permutation: "mset (prioritizeTasks ts) = mset ts"
  by (simp add: prioritizeTasks_def mset_sortBy)

lemma prioritizeTasks_sorted: "sorted_wrt (\<lambda>a b. compareTasks a b \<le> 0) (prioritizeTasks ts)"
  unfolding prioritizeTasks_def
  by (rule sorted_sortBy) (use compareTasks_total compareTasks_trans in blast)+

lemma compareTasks_level: "compareTasks a b \<le> 0 \<Longrightarrow> priorityOrder (TaskOf.priority a) \<le> priorityOrder (TaskOf.priority b)"
  by (auto simp: compareTasks_def Let_def split: if_splits)

text \<open>
  Claim C4: \<open>prioritizeTasks\<close> sorts by level, then by deadline, and among ties puts the
  task created earlier first.  The comparator returns the difference of the deadlines
  also when it is 0, and reaches the comparison of the creation times only for two tasks
  without deadline.  Two tasks of the same level and the same deadline stay in the order
  of the argument: here the one created later comes first.
\<close>

theorem prioritizeTasks_equal_deadlines:
  "prioritizeTasks [dueSoonTask, olderTask] = [dueSoonTask, olderTask]
   \<and> TaskOf.priority olderTask = TaskOf.priority dueSoonTask
   \<and> TaskOf.deadline olderTask = TaskOf.deadline dueSoonTask
   \<and> createdAt olderTask < createdAt dueSoonTask"
  by (simp add: prioritizeTasks_def sortBy_def compareTasks_def olderTask_def dueSoonTask_def)

section \<open>Atomization engine\<close>

text \<open>
  Field by field: an absent estimate becomes 30 minutes, a negative one 15, every
  estimate lies in 15..60, and an absent dependency list becomes the empty list on a
  parallelizable micro-task.  \<open>processLLMResponse\<close> has a result for every answer.
\<close>

lemma processMicroTask_missing_estimate:
  "LLMMicroTask.estimatedMinutes mt = None \<Longrightarrow>
   MicroTaskSuggestion.estimatedMinutes (processMicroTask mt) = 30"
  by (simp add: processMicroTask_def clampTimeEstimate_def)

lemma processMicroTask_negative_estimate:
  "LLMMicroTask.estimatedMinutes mt = Some m \<Longrightarrow> m < 0 \<Longrightarrow>
   MicroTaskSuggestion.estimatedMinutes (processMicroTask mt) = 15"
  by (simp add: processMicroTask_def clampTimeEstimate_def)

lemma processMicroTask_missing_dependsOn:
  "LLMMicroTask.dependsOn mt = None \<Longrightarrow>
   MicroTaskSuggestion.dependsOn (processMicroTask mt) = [] \<and> isParallelizable (processMicroTask mt)"
  by (simp add: processMicroTask_def)

lemma processMicroTask_estimate_bounds:
  "15 \<le> MicroTaskSuggestion.estimatedMinutes (processMicroTask mt)
   \<and> MicroTaskSuggestion.estimatedMinutes (processMicroTask mt) \<le> 60"
  by (simp add: processMicroTask_def clampTimeEstimate_def)

lemma processLLMResponse_microTasks:
  "AtomizationResult.microTasks (processLLMResponse response task)
     = map processMicroTask (AtomizationLLMResponse.microTasks response)"
  by (simp add: processLLMResponse_def Let_def)

text \<open>
  Claim C7: a micro-task whose \<open>estimatedMinutes\<close> is negative or missing is given 30
  minutes.  For a missing estimate the code does so; a negative estimate is truthy, passes
  \<open>mt.estimatedMinutes || 30\<close> unchanged and is clamped to the lower bound: the micro-task
  with the estimate -5 comes out with 15 minutes, not 30.
\<close>

theorem processLLMResponse_negative_estimate:
  "map MicroTaskSuggestion.estimatedMinutes
     (AtomizationResult.microTasks (processLLMResponse negativeEstimateResponse dueSoonTask)) = [15]"
  by (simp add: processLLMResponse_microTasks negativeEstimateResponse_def processMicroTask_def
      clampTimeEstimate_def)

text \<open>
  Claim C6: when the request to the text-generation collaborator fails, with whatever
  error, \<open>atomize\<close> returns the single-task result: one micro-task that wraps the task
  (its title led by an action verb), no dependencies, the parallel groups \<open>[[0]]\<close>, and a
  suggestion of minimum viable progress exactly when the task has a deadline.
\<close>

theorem atomize_provider_failure:
  assumes "generateJSON (atomizationMessages pf task) = Inl e"
  shows "atomize pf generateJSON task = createSingleTaskResult task
    \<and> map MicroTaskSuggestion.title (AtomizationResult.microTasks (createSingleTaskResult task))
        = [ensureActionVerb (TaskOf.title task)]
    \<and> map MicroTaskSuggestion.dependsOn (AtomizationResult.microTasks (createSingleTaskResult task)) = [[]]
    \<and> dependencies (createSingleTaskResult task) = []
    \<and> parallelGroups (createSingleTaskResult task) = [[0]]
    \<and> (AtomizationResult.mvpSuggestion (createSingleTaskResult task) \<noteq> None)
        = (TaskOf.deadline task \<noteq> None)"
  using assms by (auto simp: atomize_def createSingleTaskResult_def split: option.splits)

theorem atomize_provider_failure_witness:
  "failingProvider (atomizationMessages utcPlatform dueSoonTask) = Inl (Error ''fetch failed'')
   \<and> atomize utcPlatform failingProvider dueSoonTask = createSingleTaskResult dueSoonTask
   \<and> parallelGroups (createSingleTaskResult dueSoonTask) = [[0]]"
proof -
  have h: "failingProvider (atomizationMessages utcPlatform dueSoonTask) = Inl (Error ''fetch failed'')"
    by (simp add: failingProvider_def)
  show ?thesis
    using h atomize_provider_failure[of failingProvider utcPlatform dueSoonTask, OF h] by simp
qed

section \<open>Serialization\<close>

lemma deserialize_serialize_entries:
  "list_all (roundTrips pf) (map timestamp hs) \<Longrightarrow>
   those (map (deserializeEntry pf) (map (serializeEntry pf) hs)) = Some hs"
  by (induction hs) (simp_all add: deserializeEntry_def serializeEntry_def roundTrips_def)

text \<open>
  Claim C8: \<open>deserializeTask (serializeTask task)\<close> is the task again: every field that is
  no date is equal, and \<open>createdAt\<close>, \<open>updatedAt\<close>, \<open>deadline\<close>, \<open>scheduledDate\<close> and the
  timestamp of every history entry are the same instants (a \<open>Date\<close> of the model is its
  instant, so equality of tasks says both).  The platform enters through \<open>toISOString\<close>
  and the Date constructor, which read back each other at the dates of the task.
\<close>

theorem deserialize_serialize:
  assumes "list_all (roundTrips pf) (taskDates task)"
  shows "deserializeTask pf (serializeTask pf task) = Some task"
proof -
  have c: "roundTrips pf (createdAt task)" and u: "roundTrips pf (updatedAt task)"
    using assms by (simp_all add: taskDates_def)
  have dl: "optionalDate pf (map_option (toISOString pf) (TaskOf.deadline task)) = Some (TaskOf.deadline task)"
    using assms by (cases "TaskOf.deadline task") (simp_all add: taskDates_def optionalDate_def roundTrips_def)
  have sd: "optionalDate pf (map_option (toISOString pf) (TaskOf.scheduledDate task)) = Some (TaskOf.scheduledDate task)"
    using assms by (cases "TaskOf.scheduledDate task") (simp_all add: taskDates_def optionalDate_def roundTrips_def)
  have hs: "those (map (deserializeEntry pf) (map (serializeEntry pf) (history task))) = Some (history task)"
    using assms by (intro deserialize_serialize_entries) (simp add: taskDates_def)
  show ?thesis
    using c u dl sd hs by (simp add: deserializeTask_def serializeTask_def roundTrips_def)
qed

lemma isoParse_isoString_samples:
  "isoParse (isoString 1700000000000) = Some 1700000000000"
  "isoParse (isoString 1700000003000) = Some 1700000003000"
  "isoParse (isoString 1700072000000) = Some 1700072000000"
  "isoParse (isoString 1700040000000) = Some 1700040000000"
  by code_simp+

lemma isoString_nonempty: "isoString t \<noteq> []"
  by (simp add: isoString_def Let_def split: prod.splits)

lemma roundTrips_samples:
  "roundTrips utcPlatform 1700000000000"
  "roundTrips utcPlatform 1700000003000"
  "roundTrips utcPlatform 1700072000000"
  "roundTrips utcPlatform 1700040000000"
  by (simp_all add: roundTrips_def utcPlatform_def isoParse_isoString_samples isoString_nonempty)

theorem deserialize_serialize_witness:
  "list_all (roundTrips utcPlatform) (taskDates scheduledTask)
   \<and> deserializeTask utcPlatform (serializeTask utcPlatform scheduledTask) = Some scheduledTask"
proof -
  have h: "list_all (roundTrips utcPlatform) (taskDates scheduledTask)"
    by (simp add: taskDates_def scheduledTask_def dueSoonTask_def roundTrips_samples)
  show ?thesis using h deserialize_serialize[OF h] by simp
qed

section \<open>Progress manager\<close>

text \<open>
  The scenarios of the claim on 2024-11-04 (the call is made at 15:00 UTC): with the host
  in the zone UTC the three days count 3, and a single completion three days earlier
  counts 0.
\<close>

lemma calculateStreak_utc_three_days:
  "calculateStreak utcPlatform 1730732400000 1730732400000
     (runOps utcPlatform emptyStore threeDaysOps) = Inr 3"
  by code_simp

lemma calculateStreak_one_old_day:
  "calculateStreak newYorkPlatform 1730732400000 1730732400000
     (runOps newYorkPlatform emptyStore oneOldDayOps) = Inr 0"
  by code_simp

text \<open>
  Claim C9: with completions on the days D-2, D-1 and D (today) \<open>calculateStreak\<close> is 3.
  The loop reads the date string as midnight UTC and steps back with
  \<open>setDate(getDate() - 1)\<close>, which works on the local clock.  With the host in the zone
  America/New_York and D = 2024-11-04, midnight UTC of D is 19:00 on 2024-11-03, standard
  time; one local day earlier is 19:00 on 2024-11-02, daylight time, which is 23:00 UTC on
  2024-11-02: the step from 2024-11-04 lands on 2024-11-02, the completion of 2024-11-03
  is passed over, and the streak is 2.
\<close>

theorem calculateStreak_new_york_three_days:
  "calculateStreak newYorkPlatform 1730732400000 1730732400000
     (runOps newYorkPlatform emptyStore threeDaysOps) = Inr 2
   \<and> getCompletionDates newYorkPlatform (runOps newYorkPlatform emptyStore threeDaysOps)
       = [''2024-11-02'', ''2024-11-03'', ''2024-11-04'']
   \<and> formatDate newYorkPlatform 1730732400000 = ''2024-11-04''
   \<and> previousDay newYorkPlatform ''2024-11-04'' = Inr ''2024-11-02''"
  by code_simp

section \<open>Topological order\<close>

lemma graphOf_empty: "graphOf n [] = (replicate n [], replicate n 0)"
  by (simp add: graphOf_def map_replicate_const)

lemma graphOf_snoc:
  assumes "u < n" and "v < n"
  shows "graphOf n (es @ [(u, v)])
    = ((fst (graphOf n es))[u := fst (graphOf n es) ! u @ [v]],
       (snd (graphOf n es))[v := snd (graphOf n es) ! v + 1])"
proof -
  have a: "map (\<lambda>w. map snd (filter (\<lambda>e. fst e = w) (es @ [(u, v)]))) [0..<n]
      = (map (\<lambda>w. map snd (filter (\<lambda>e. fst e = w) es)) [0..<n])
          [u := map (\<lambda>w. map snd (filter (\<lambda>e. fst e = w) es)) [0..<n] ! u @ [v]]"
    using assms(1) by (intro nth_equalityI) (auto simp: nth_list_update)
  have b: "map (\<lambda>w. int (length (filter (\<lambda>e. snd e = w) (es @ [(u, v)])))) [0..<n]
      = (map (\<lambda>w. int (length (filter (\<lambda>e. snd e = w) es))) [0..<n])
          [v := map (\<lambda>w. int (length (filter (\<lambda>e. snd e = w) es))) [0..<n] ! v + 1]"
    using assms(2) by (intro nth_equalityI) (auto simp: nth_list_update)
  show ?thesis unfolding graphOf_def fst_conv snd_conv using a b by simp
qed

lemma addDependency_graphOf:
  assumes "toIdx < n" and "case parseInt s of None \<Rightarrow> True | Some i \<Rightarrow> 0 \<le> i"
  shows "addDependency n toIdx (graphOf n es) s = Inr (graphOf n (es @ edgesInto n toIdx [s]))"
proof (cases "parseInt s")
  case None
  then show ?thesis by (simp add: addDependency_def edgesInto_def split: prod.splits)
next
  case (Some i)
  then have nn: "0 \<le> i" using assms(2) by simp
  show ?thesis
  proof (cases "i < int n \<and> i \<noteq> int toIdx")
    case False
    then show ?thesis using Some by (auto simp: addDependency_def edgesInto_def split: prod.splits)
  next
    case True
    then have "nat i < n" using nn by linarith
    from graphOf_snoc[OF this assms(1), of es] show ?thesis
      using Some True nn by (auto simp: addDependency_def edgesInto_def split: prod.splits)
  qed
qed

lemma edgesInto_Cons: "edgesInto n toIdx (s # ss) = edgesInto n toIdx [s] @ edgesInto n toIdx ss"
  by (simp add: edgesInto_def)

lemma addDependencies_graphOf:
  assumes "toIdx < n"
    and "list_all (\<lambda>s. case parseInt s of None \<Rightarrow> True | Some i \<Rightarrow> 0 \<le> i) ss"
  shows "addDependencies n toIdx ss (graphOf n es) = Inr (graphOf n (es @ edgesInto n toIdx ss))"
  using assms(2)
proof (induction ss arbitrary: es)
  case Nil
  show ?case by (simp add: edgesInto_def)
next
  case (Cons s ss)
  then have s: "case parseInt s of None \<Rightarrow> True | Some i \<Rightarrow> 0 \<le> i"
    and ss: "list_all (\<lambda>s. case parseInt s of None \<Rightarrow> True | Some i \<Rightarrow> 0 \<le> i) ss" by simp_all
  show ?case
    using addDependency_graphOf[OF assms(1) s, of es] Cons.IH[OF ss, of "es @ edgesInto n toIdx [s]"]
    by (simp add: edgesInto_Cons[of n toIdx s ss])
qed

lemma buildGraph_graphOf:
  assumes "nonNegativeIndices ms" and "k + length ms \<le> n"
  shows "buildGraph n (enumerate k ms) (graphOf n es)
    = Inr (graphOf n (es @ concat (map (\<lambda>(toIdx, mt). edgesInto n toIdx (MicroTaskSuggestion.dependsOn mt))
                                       (enumerate k ms))))"
  using assms
proof (induction ms arbitrary: k es)
  case Nil
  show ?case by simp
next
  case (Cons m ms)
  from Cons.prems have k: "k < n" and rest: "Suc k + length ms \<le> n" by simp_all
  from Cons.prems have m: "list_all (\<lambda>s. case parseInt s of None \<Rightarrow> True | Some i \<Rightarrow> 0 \<le> i)
      (MicroTaskSuggestion.dependsOn m)" and ms: "nonNegativeIndices ms"
    by (simp_all add: nonNegativeIndices_def)
  show ?case
    using addDependencies_graphOf[OF k m, of es]
      Cons.IH[OF ms rest, of "es @ edgesInto n k (MicroTaskSuggestion.dependsOn m)"]
    by simp
qed

lemma buildGraph_dependencyEdges:
  assumes "nonNegativeIndices ms"
  shows "buildGraph (length ms) (enumerate 0 ms) (replicate (length ms) [], replicate (length ms) 0)
    = Inr (graphOf (length ms) (dependencyEdges ms))"
  using buildGraph_graphOf[OF assms, of 0 "length ms" "[]"]
  by (simp add: graphOf_empty dependencyEdges_def)

lemma edgesInto_bounds:
  "(u, v) \<in> set (edgesInto n toIdx ss) \<Longrightarrow> u < n \<and> v = toIdx \<and> u \<noteq> v"
  by (auto simp: edgesInto_def split: option.splits if_splits)

lemma dependencyEdges_bounds:
  assumes "(u, v) \<in> set (dependencyEdges ms)"
  shows "u < length ms \<and> v < length ms \<and> u \<noteq> v"
proof -
  from assms obtain toIdx m where tm: "(toIdx, m) \<in> set (enumerate 0 ms)"
    and e: "(u, v) \<in> set (edgesInto (length ms) toIdx (MicroTaskSuggestion.dependsOn m))"
    by (auto simp: dependencyEdges_def)
  from tm have "toIdx < length ms" by (auto simp: in_set_enumerate_eq)
  with edgesInto_bounds[OF e] show ?thesis by simp
qed

lemma comesBefore_append: "comesBefore u v xs \<Longrightarrow> comesBefore u v (xs @ ys)"
  unfolding comesBefore_def
  by (metis length_append nth_append trans_less_add1 less_trans)

lemma comesBefore_snoc: "u \<in> set xs \<Longrightarrow> comesBefore u v (xs @ ys @ [v])"
proof -
  assume "u \<in> set xs"
  then obtain i where i: "i < length xs" "xs ! i = u" by (auto simp: in_set_conv_nth)
  let ?j = "length xs + length ys"
  have "i < ?j" "?j < length (xs @ ys @ [v])" "(xs @ ys @ [v]) ! i = u" "(xs @ ys @ [v]) ! ?j = v"
    using i by (simp_all add: nth_append)
  then show ?thesis unfolding comesBefore_def by blast
qed

lemma remaining_zero:
  "remaining es R v = 0 \<Longrightarrow> (u, v) \<in> set es \<Longrightarrow> u \<in> R"
  unfolding remaining_def by (auto simp: filter_empty_conv)

lemma remaining_nonneg: "0 \<le> remaining es R v"
  by (simp add: remaining_def)

lemma relax_kahnInv:
  assumes "kahnInv n es todo inDegree queue result"
    and "relax todo inDegree queue = (inDegree', queue')"
  shows "kahnInv n es [] inDegree' queue' result"
  using assms
proof (induction todo arbitrary: inDegree queue)
  case Nil
  then show ?case by simp
next
  case (Cons v vs)
  note inv = Cons.prems(1)
  define d where "d = inDegree ! v"
  define inDegree1 where "inDegree1 = inDegree[v := d - 1]"
  define queue1 where "queue1 = (if d - 1 = 0 then queue @ [v] else queue)"
  from inv have len: "length inDegree = n" and dist: "distinct (result @ queue)"
    and sub: "set (result @ queue) \<subseteq> {..<n}" and vn: "v < n" and vsn: "set vs \<subseteq> {..<n}"
    and deg: "\<And>w. w < n \<Longrightarrow> inDegree ! w = remaining es (set result) w + int (count_list (v # vs) w)"
    and mem: "\<And>w. w < n \<Longrightarrow> (w \<in> set (result @ queue)) = (inDegree ! w = 0)"
    and ord: "\<And>u w. (u, w) \<in> set es \<Longrightarrow> w \<in> set (result @ queue) \<Longrightarrow> comesBefore u w (result @ queue)"
    unfolding kahnInv_def by auto
  have dv: "d = remaining es (set result) v + 1 + int (count_list vs v)"
    using deg[OF vn] by (simp add: d_def)
  then have dpos: "1 \<le> d" using remaining_nonneg[of es "set result" v] by linarith
  then have vnot: "v \<notin> set (result @ queue)" using mem[OF vn] by (simp add: d_def)
  have step: "relax vs inDegree1 queue1 = (inDegree', queue')"
    using Cons.prems(2) vn len by (simp add: inDegree1_def queue1_def d_def)
  have q1: "set (result @ queue1) = (if d - 1 = 0 then insert v (set (result @ queue)) else set (result @ queue))"
    by (simp add: queue1_def)
  have "kahnInv n es vs inDegree1 queue1 result"
    unfolding kahnInv_def
  proof (intro conjI allI impI ballI)
    show "length inDegree1 = n" by (simp add: inDegree1_def len)
    show "distinct (result @ queue1)" using dist vnot by (auto simp: queue1_def)
    show "set (result @ queue1) \<subseteq> {..<n}" using sub vn by (auto simp: queue1_def)
    show "set vs \<subseteq> {..<n}" by (rule vsn)
  next
    fix w assume wn: "w < n"
    show "inDegree1 ! w = remaining es (set result) w + int (count_list vs w)"
    proof (cases "w = v")
      case True
      then show ?thesis using dv vn len by (simp add: inDegree1_def)
    next
      case False
      then show ?thesis using deg[OF wn] by (simp add: inDegree1_def)
    qed
    show "(w \<in> set (result @ queue1)) = (inDegree1 ! w = 0)"
    proof (cases "w = v")
      case True
      then show ?thesis using vnot vn len by (auto simp: inDegree1_def queue1_def)
    next
      case False
      then show ?thesis using mem[OF wn] by (auto simp: inDegree1_def queue1_def)
    qed
  next
    fix e assume e: "e \<in> set es"
    show "case e of (u, w) \<Rightarrow> w \<in> set (result @ queue1) \<longrightarrow> comesBefore u w (result @ queue1)"
    proof (cases e)
      case (Pair u w)
      have "comesBefore u w (result @ queue1)" if w: "w \<in> set (result @ queue1)"
      proof (cases "w \<in> set (result @ queue)")
        case True
        from ord[OF e[unfolded Pair] True] have "comesBefore u w (result @ queue)" .
        then show ?thesis
          using comesBefore_append[of u w "result @ queue" "[v]"] by (auto simp: queue1_def)
      next
        case False
        with w have wv: "w = v" and z: "d - 1 = 0" by (auto simp: queue1_def split: if_splits)
        from z dv have "remaining es (set result) v = 0"
          using remaining_nonneg[of es "set result" v] by linarith
        from remaining_zero[OF this] e Pair wv have "u \<in> set result" by simp
        from comesBefore_snoc[OF this, of v queue] show ?thesis using z wv by (simp add: queue1_def)
      qed
      then show ?thesis using Pair by simp
    qed
  qed
  from Cons.IH[OF this step] show ?case .
qed

lemma length_filter_split:
  "length (filter P xs) = length (filter (\<lambda>x. P x \<and> Q x) xs) + length (filter (\<lambda>x. P x \<and> \<not> Q x) xs)"
  by (induction xs) auto

lemma count_list_map_filter:
  "count_list (map snd (filter (\<lambda>e. fst e = u) es)) v = length (filter (\<lambda>e. snd e = v \<and> fst e = u) es)"
  by (induction es) auto

lemma remaining_insert:
  assumes "node \<notin> R"
  shows "remaining es R v
    = remaining es (insert node R) v + int (count_list (map snd (filter (\<lambda>e. fst e = node) es)) v)"
proof -
  have "length (filter (\<lambda>e. snd e = v \<and> fst e \<notin> R) es)
      = length (filter (\<lambda>e. (snd e = v \<and> fst e \<notin> R) \<and> fst e \<noteq> node) es)
        + length (filter (\<lambda>e. (snd e = v \<and> fst e \<notin> R) \<and> \<not> fst e \<noteq> node) es)"
    by (rule length_filter_split)
  moreover have "filter (\<lambda>e. (snd e = v \<and> fst e \<notin> R) \<and> fst e \<noteq> node) es
      = filter (\<lambda>e. snd e = v \<and> fst e \<notin> insert node R) es"
    by (rule filter_cong) auto
  moreover have "filter (\<lambda>e. (snd e = v \<and> fst e \<notin> R) \<and> \<not> fst e \<noteq> node) es
      = filter (\<lambda>e. snd e = v \<and> fst e = node) es"
    using assms by (intro filter_cong) auto
  ultimately show ?thesis by (simp add: remaining_def count_list_map_filter)
qed

lemma graphOf_adj:
  "u < n \<Longrightarrow> fst (graphOf n es) ! u = map snd (filter (\<lambda>e. fst e = u) es)"
  by (simp add: graphOf_def)

lemma graphOf_length: "length (fst (graphOf n es)) = n" "length (snd (graphOf n es)) = n"
  by (simp_all add: graphOf_def)

lemma kahn_kahnInv:
  assumes "kahnInv n es [] inDegree queue result"
    and "adjList = fst (graphOf n es)"
    and "\<forall>(u, v)\<in>set es. u < n \<and> v < n"
  shows "\<exists>res inDegree'. kahn adjList inDegree queue result = Inr res
           \<and> kahnInv n es [] inDegree' [] res"
  using assms
proof (induction adjList inDegree queue result rule: kahn.induct)
  case (1 adjList inDegree result)
  then show ?case by auto
next
  case (2 adjList inDegree node queue result)
  note inv = "2.prems"(1) and adj = "2.prems"(2) and bnd = "2.prems"(3)
  from inv have len: "length inDegree = n" and dist: "distinct (result @ node # queue)"
    and sub: "set (result @ node # queue) \<subseteq> {..<n}"
    and deg: "\<And>w. w < n \<Longrightarrow> inDegree ! w = remaining es (set result) w"
    and mem: "\<And>w. w < n \<Longrightarrow> (w \<in> set (result @ node # queue)) = (inDegree ! w = 0)"
    and ord: "\<And>u w. (u, w) \<in> set es \<Longrightarrow> w \<in> set (result @ node # queue)
                 \<Longrightarrow> comesBefore u w (result @ node # queue)"
    unfolding kahnInv_def by auto
  from sub have nn: "node < n" by simp
  then have nl: "node < length adjList" using adj by (simp add: graphOf_length)
  have adjn: "adjList ! node = map snd (filter (\<lambda>e. fst e = node) es)"
    using adj nn by (simp add: graphOf_adj)
  from dist have nnot: "node \<notin> set result" by simp
  obtain inDegree' queue' where r: "relax (adjList ! node) inDegree queue = (inDegree', queue')"
    by fastforce
  have "kahnInv n es (adjList ! node) inDegree queue (result @ [node])"
    unfolding kahnInv_def
  proof (intro conjI allI impI ballI)
    show "length inDegree = n" by (rule len)
    show "distinct ((result @ [node]) @ queue)" using dist by simp
    show "set ((result @ [node]) @ queue) \<subseteq> {..<n}" using sub by simp
    show "set (adjList ! node) \<subseteq> {..<n}" using bnd by (auto simp: adjn)
  next
    fix w assume wn: "w < n"
    show "inDegree ! w = remaining es (set (result @ [node])) w + int (count_list (adjList ! node) w)"
      using deg[OF wn] remaining_insert[OF nnot, of es w] by (simp add: adjn)
    show "(w \<in> set ((result @ [node]) @ queue)) = (inDegree ! w = 0)"
      using mem[OF wn] by simp
  next
    fix e assume e: "e \<in> set es"
    show "case e of (u, w) \<Rightarrow> w \<in> set ((result @ [node]) @ queue)
            \<longrightarrow> comesBefore u w ((result @ [node]) @ queue)"
      using ord e by (cases e) auto
  qed
  from relax_kahnInv[OF this r] have "kahnInv n es [] inDegree' queue' (result @ [node])" .
  from "2.IH"[OF nl r[symmetric] this adj bnd]
  obtain res inDegree'' where "kahn adjList inDegree' queue' (result @ [node]) = Inr res"
    and "kahnInv n es [] inDegree'' [] res" by blast
  then show ?case using nl r by auto
qed

lemma initial_kahnInv:
  "kahnInv n es [] (snd (graphOf n es)) (filter (\<lambda>i. snd (graphOf n es) ! i = 0) [0..<n]) []"
  unfolding kahnInv_def
proof (intro conjI allI impI ballI)
  show "length (snd (graphOf n es)) = n" by (simp add: graphOf_length)
  show "distinct ([] @ filter (\<lambda>i. snd (graphOf n es) ! i = 0) [0..<n])" by simp
  show "set ([] @ filter (\<lambda>i. snd (graphOf n es) ! i = 0) [0..<n]) \<subseteq> {..<n}" by auto
  show "set [] \<subseteq> {..<n}" by simp
next
  fix v assume vn: "v < n"
  show "snd (graphOf n es) ! v = remaining es (set []) v + int (count_list [] v)"
    using vn by (simp add: graphOf_def remaining_def)
  show "(v \<in> set ([] @ filter (\<lambda>i. snd (graphOf n es) ! i = 0) [0..<n])) = (snd (graphOf n es) ! v = 0)"
    using vn by simp
next
  fix e assume e: "e \<in> set es"
  show "case e of (u, v) \<Rightarrow> v \<in> set ([] @ filter (\<lambda>i. snd (graphOf n es) ! i = 0) [0..<n])
          \<longrightarrow> comesBefore u v ([] @ filter (\<lambda>i. snd (graphOf n es) ! i = 0) [0..<n])"
  proof (cases e)
    case (Pair u v)
    have "snd (graphOf n es) ! v \<noteq> 0" if "v < n"
      using that e Pair by (force simp: graphOf_def filter_empty_conv)
    then show ?thesis using Pair by auto
  qed
qed

lemma comesBefore_trans:
  assumes "distinct xs" and "comesBefore u v xs" and "comesBefore v w xs"
  shows "comesBefore u w xs"
proof -
  from assms(2) obtain i j where ij: "i < j" "j < length xs" "xs ! i = u" "xs ! j = v"
    unfolding comesBefore_def by blast
  from assms(3) obtain j' k where jk: "j' < k" "k < length xs" "xs ! j' = v" "xs ! k = w"
    unfolding comesBefore_def by blast
  have "j' < length xs" using jk by simp
  from nth_eq_iff_index_eq[OF assms(1) ij(2) this] have "j = j'" using ij jk by simp
  then have "i < k" using ij jk by simp
  then show ?thesis unfolding comesBefore_def using ij jk by blast
qed

lemma comesBefore_irrefl:
  assumes "distinct xs"
  shows "\<not> comesBefore u u xs"
proof
  assume "comesBefore u u xs"
  then obtain i j where ij: "i < j" "j < length xs" "xs ! i = u" "xs ! j = u"
    unfolding comesBefore_def by blast
  then have "i < length xs" by simp
  from nth_eq_iff_index_eq[OF assms this ij(2)] ij show False by simp
qed

lemma ordered_acyclic:
  assumes "distinct xs" and "\<forall>(u, v)\<in>r. comesBefore u v xs"
  shows "acyclic r"
proof -
  have "comesBefore a b xs" if "(a, b) \<in> r\<^sup>+" for a b
    using that
  proof (induction rule: trancl_induct)
    case (base y)
    then show ?case using assms(2) by auto
  next
    case (step y z)
    then have "comesBefore y z xs" using assms(2) by auto
    with step.IH show ?case using comesBefore_trans[OF assms(1)] by blast
  qed
  then show ?thesis using comesBefore_irrefl[OF assms(1)] unfolding acyclic_def by blast
qed

lemma kahn_final_acyclic:
  assumes inv: "kahnInv n es [] inDegree [] res"
    and bnd: "\<forall>(u, v)\<in>set es. u < n \<and> v < n"
    and acyc: "acyclic (set es)"
  shows "set res = {..<n}"
proof (rule ccontr)
  assume ne: "set res \<noteq> {..<n}"
  from inv have sub: "set res \<subseteq> {..<n}"
    and deg: "\<And>v. v < n \<Longrightarrow> inDegree ! v = remaining es (set res) v"
    and mem: "\<And>v. v < n \<Longrightarrow> (v \<in> set res) = (inDegree ! v = 0)"
    unfolding kahnInv_def by auto
  from ne sub obtain x where x: "x \<in> {..<n} - set res" by auto
  have "wf (set es)" using acyc by (simp add: finite_acyclic_wf)
  from wfE_min[OF this x] obtain z where z: "z \<in> {..<n} - set res"
    and zmin: "\<And>y. (y, z) \<in> set es \<Longrightarrow> y \<notin> {..<n} - set res" by blast
  have "filter (\<lambda>e. snd e = z \<and> fst e \<notin> set res) es = []"
    unfolding filter_empty_conv
  proof
    fix e assume e: "e \<in> set es"
    show "\<not> (snd e = z \<and> fst e \<notin> set res)"
    proof
      assume a: "snd e = z \<and> fst e \<notin> set res"
      then have "(fst e, z) \<in> set es" using e by (metis prod.collapse)
      from zmin[OF this] have "fst e \<notin> {..<n} - set res" .
      moreover have "fst e < n" using bnd e by (cases e) auto
      ultimately show False using a by simp
    qed
  qed
  then have "remaining es (set res) z = 0" by (simp add: remaining_def)
  with deg[of z] mem[of z] z show False by simp
qed

lemma topologicalSort_kahn:
  assumes "nonNegativeIndices mts"
  shows "\<exists>res inDegree'.
           kahn (fst (graphOf (length mts) (dependencyEdges mts)))
                (snd (graphOf (length mts) (dependencyEdges mts)))
                (filter (\<lambda>i. snd (graphOf (length mts) (dependencyEdges mts)) ! i = 0) [0..<length mts]) []
             = Inr res
           \<and> kahnInv (length mts) (dependencyEdges mts) [] inDegree' [] res
           \<and> topologicalSort mts = Inr (if length res \<noteq> length mts then [0..<length mts] else res)"
proof -
  let ?n = "length mts" and ?es = "dependencyEdges mts"
  have bnd: "\<forall>(u, v)\<in>set ?es. u < ?n \<and> v < ?n"
    using dependencyEdges_bounds by blast
  from kahn_kahnInv[OF initial_kahnInv refl bnd]
  obtain res inDegree' where k: "kahn (fst (graphOf ?n ?es)) (snd (graphOf ?n ?es))
        (filter (\<lambda>i. snd (graphOf ?n ?es) ! i = 0) [0..<?n]) [] = Inr res"
    and inv: "kahnInv ?n ?es [] inDegree' [] res" by blast
  have "topologicalSort mts = Inr (if length res \<noteq> ?n then [0..<?n] else res)"
    using buildGraph_dependencyEdges[OF assms] k
    by (cases "graphOf ?n ?es") (simp add: topologicalSort_def Let_def)
  with k inv show ?thesis by blast
qed

text \<open>
  Claim C5, as the code has it, for lists in which no dependency reads as a negative
  number.  The graph has the edges \<open>dependencyEdges\<close>: entries that do not read as a
  number, indices not below \<open>n\<close> and a micro-task's own index are no edges.
  \<open>topologicalSort\<close> returns an order, without throwing.  If the graph is acyclic the
  order is a permutation of \<open>0..n-1\<close> in which the source of every edge comes before its
  target; if the graph has a cycle the order is \<open>0..n-1\<close>.
\<close>

theorem topologicalSort_order:
  assumes "nonNegativeIndices mts"
  shows "\<exists>order. topologicalSort mts = Inr order
    \<and> (if acyclic (set (dependencyEdges mts))
        then mset order = mset [0..<length mts]
             \<and> (\<forall>(u, v)\<in>set (dependencyEdges mts). comesBefore u v order)
        else order = [0..<length mts])"
proof -
  let ?n = "length mts" and ?es = "dependencyEdges mts"
  have bnd: "\<forall>(u, v)\<in>set ?es. u < ?n \<and> v < ?n"
    using dependencyEdges_bounds by blast
  from topologicalSort_kahn[OF assms] obtain res inDegree'
    where inv: "kahnInv ?n ?es [] inDegree' [] res"
      and ts: "topologicalSort mts = Inr (if length res \<noteq> ?n then [0..<?n] else res)" by blast
  from inv have dist: "distinct res" and sub: "set res \<subseteq> {..<?n}"
    and ord: "\<And>u v. (u, v) \<in> set ?es \<Longrightarrow> v \<in> set res \<Longrightarrow> comesBefore u v res"
    unfolding kahnInv_def by auto
  have before: "\<forall>(u, v)\<in>set ?es. comesBefore u v res" if all: "set res = {..<?n}"
  proof -
    have "comesBefore u v res" if e: "(u, v) \<in> set ?es" for u v
    proof -
      from dependencyEdges_bounds[OF e] have "v \<in> set res" using all by simp
      from ord[OF e this] show ?thesis .
    qed
    then show ?thesis by blast
  qed
  show ?thesis
  proof (cases "acyclic (set ?es)")
    case True
    from kahn_final_acyclic[OF inv bnd True] have all: "set res = {..<?n}" .
    have "set res = set [0..<?n]" unfolding all by (simp add: lessThan_atLeast0)
    with set_eq_iff_mset_eq_distinct[OF dist distinct_upt[of 0 ?n]]
    have ms: "mset res = mset [0..<?n]" by blast
    from mset_eq_length[OF this] have len: "length res = ?n" by simp
    from ts len have "topologicalSort mts = Inr res" by simp
    with ms before[OF all] True show ?thesis by simp
  next
    case False
    have "length res \<noteq> ?n"
    proof
      assume l: "length res = ?n"
      have "card (set res) = card {..<?n}" using dist l by (simp add: distinct_card)
      with sub have "set res = {..<?n}" by (simp add: card_subset_eq)
      from ordered_acyclic[OF dist before[OF this]] False show False by simp
    qed
    with ts have "topologicalSort mts = Inr [0..<?n]" by simp
    with False show ?thesis by simp
  qed
qed

text \<open>A negative index: \<open>adjList[-1]\<close> is \<open>undefined\<close>, and the call throws.\<close>

lemma topologicalSort_negative_index: "topologicalSort negativeIndexTasks = Inl TypeError"
  by code_simp

text \<open>
  Claim C5: for an acyclic dependency graph \<open>topologicalSort\<close> puts every dependency
  before its dependents, for a graph with a cycle it returns the indices in their
  original order, and it never throws.
  A micro-task that names itself among its dependencies is a cycle of its graph; the code
  skips such an entry (\<open>fromIndex !== toIndex\<close>) and sorts by the others.  Below both
  micro-tasks depend on micro-task 1, and the result is 1 before 0, not the original order.
\<close>

theorem topologicalSort_self_dependency:
  "topologicalSort selfDependentTasks = Inr [1, 0]
   \<and> map (\<lambda>m. map parseInt (MicroTaskSuggestion.dependsOn m)) selfDependentTasks
       = [[Some 1], [Some 1]]"
  by code_simp

lemma chainedTasks_edges: "dependencyEdges chainedTasks = [(2, 0), (0, 1)]"
  by code_simp

lemma chainedTasks_acyclic: "acyclic (set (dependencyEdges chainedTasks))"
proof -
  have "set (dependencyEdges chainedTasks)
      \<subseteq> inv_image less_than (\<lambda>x::nat. if x = 2 then 0 else if x = 0 then 1 else (2::nat))"
    by (simp add: chainedTasks_edges)
  moreover have "wf (inv_image less_than (\<lambda>x::nat. if x = 2 then 0 else if x = 0 then 1 else (2::nat)))"
    by simp
  ultimately have "wf (set (dependencyEdges chainedTasks))" by (rule wf_subset[rotated])
  then show ?thesis by (rule wf_acyclic)
qed

theorem topologicalSort_order_witness:
  "nonNegativeIndices chainedTasks \<and> acyclic (set (dependencyEdges chainedTasks))
   \<and> (\<exists>order. topologicalSort chainedTasks = Inr order
         \<and> mset order = mset [0..<length chainedTasks]
         \<and> comesBefore 2 0 order \<and> comesBefore 0 1 order)"
proof -
  have h: "nonNegativeIndices chainedTasks" by code_simp
  from topologicalSort_order[OF h] chainedTasks_acyclic
  obtain order where "topologicalSort chainedTasks = Inr order"
    and "mset order = mset [0..<length chainedTasks]"
    and "\<forall>(u, v)\<in>set (dependencyEdges chainedTasks). comesBefore u v order" by auto
  then show ?thesis using h chainedTasks_acyclic by (auto simp: chainedTasks_edges)
qed

end
